theory Spec2Isabelle
  imports Main
begin

section \<open>Python strings\<close>

text \<open>
  Strings are lists of characters. The model covers ASCII text: the whitespace of
  \<^verbatim>\<open>str.strip\<close>, \<^verbatim>\<open>str.split\<close> and of \<^verbatim>\<open>\s\<close> is the ASCII whitespace
  Python knows (tab, line feed, vertical tab, form feed, carriage return, the four
  separators 0x1C to 0x1F and the space), digits are 0 to 9, and \<^verbatim>\<open>upper\<close> and
  \<^verbatim>\<open>lower\<close> change the 26 letters only; any other character is carried through
  unchanged.
\<close>

definition NL :: char where
  "NL = CHR 0x0A"

definition whitespace :: string where
  "whitespace = [CHR 0x09, CHR 0x0A, CHR 0x0B, CHR 0x0C, CHR 0x0D,
                 CHR 0x1C, CHR 0x1D, CHR 0x1E, CHR 0x1F, CHR '' '']"

definition lowercase :: string where
  "lowercase = ''abcdefghijklmnopqrstuvwxyz''"

definition uppercase :: string where
  "uppercase = ''ABCDEFGHIJKLMNOPQRSTUVWXYZ''"

definition is_space :: "char \<Rightarrow> bool" where
  "is_space c = (c \<in> set whitespace)"

definition is_digit :: "char \<Rightarrow> bool" where
  "is_digit c = (c \<in> set ''0123456789'')"

definition is_alpha :: "char \<Rightarrow> bool" where
  "is_alpha c = (c \<in> set uppercase \<or> c \<in> set lowercase)"

definition upper_char :: "char \<Rightarrow> char" where
  "upper_char c = (case map_of (zip lowercase uppercase) c of Some u \<Rightarrow> u | None \<Rightarrow> c)"

definition lower_char :: "char \<Rightarrow> char" where
  "lower_char c = (case map_of (zip uppercase lowercase) c of Some u \<Rightarrow> u | None \<Rightarrow> c)"

definition py_upper :: "string \<Rightarrow> string" where
  "py_upper s = map upper_char s"

definition py_lower :: "string \<Rightarrow> string" where
  "py_lower s = map lower_char s"

text \<open>\<^verbatim>\<open>s.lstrip(cs)\<close>, \<^verbatim>\<open>s.rstrip(cs)\<close>, and the forms without an argument.\<close>

definition lstrip_chars :: "string \<Rightarrow> string \<Rightarrow> string" where
  "lstrip_chars cs s = dropWhile (\<lambda>c. c \<in> set cs) s"

definition rstrip_chars :: "string \<Rightarrow> string \<Rightarrow> string" where
  "rstrip_chars cs s = rev (dropWhile (\<lambda>c. c \<in> set cs) (rev s))"

definition py_lstrip :: "string \<Rightarrow> string" where
  "py_lstrip s = lstrip_chars whitespace s"

definition py_strip :: "string \<Rightarrow> string" where
  "py_strip s = rstrip_chars whitespace (lstrip_chars whitespace s)"

definition startswith :: "string \<Rightarrow> string \<Rightarrow> bool" where
  "startswith s p = (take (length p) s = p)"

definition endswith :: "string \<Rightarrow> string \<Rightarrow> bool" where
  "endswith s p = (length p \<le> length s \<and> drop (length s - length p) s = p)"

text \<open>\<^verbatim>\<open>p in s\<close> for strings: \<open>p\<close> occurs in \<open>s\<close> as a contiguous run.\<close>

fun substring_in :: "string \<Rightarrow> string \<Rightarrow> bool" where
  "substring_in p [] = (p = [])"
| "substring_in p (x # xs) = (startswith (x # xs) p \<or> substring_in p xs)"

text \<open>
  \<^verbatim>\<open>s.split(':', 1)\<close> on a string that holds a colon: the text before the first colon
  and the text after it.
\<close>

definition split_colon1 :: "string \<Rightarrow> string \<times> string" where
  "split_colon1 s =
     (takeWhile (\<lambda>c. c \<noteq> CHR '':'') s, drop 1 (dropWhile (\<lambda>c. c \<noteq> CHR '':'') s))"

text \<open>
  \<^verbatim>\<open>s.split(None, 1)\<close>: no part for a blank string, one part for a single word, else
  the first word and the rest from its first non-blank character on (the rest keeps its
  trailing whitespace).
\<close>

definition split_ws1 :: "string \<Rightarrow> string list" where
  "split_ws1 s =
     (let t = dropWhile is_space s in
      if t = [] then []
      else
        let w = takeWhile (\<lambda>c. \<not> is_space c) t;
            r = dropWhile is_space (dropWhile (\<lambda>c. \<not> is_space c) t)
        in if r = [] then [w] else [w, r])"

text \<open>The decimal numeral of a natural number, as \<^verbatim>\<open>f"{i}"\<close> prints it.\<close>

fun decimal :: "nat \<Rightarrow> string" where
  "decimal n =
     (if n < 10 then [''0123456789'' ! n]
      else decimal (n div 10) @ [''0123456789'' ! (n mod 10)])"

declare decimal.simps [simp del]

text \<open>
  The lines a text file yields when it is iterated: each line keeps its line feed, the
  last one may lack it.
\<close>

fun lines_acc :: "string \<Rightarrow> string \<Rightarrow> string list" where
  "lines_acc acc [] = (if acc = [] then [] else [rev acc])"
| "lines_acc acc (c # cs) =
     (if c = NL then rev (c # acc) # lines_acc [] cs else lines_acc (c # acc) cs)"

definition py_lines :: "string \<Rightarrow> string list" where
  "py_lines s = lines_acc [] s"

section \<open>Regular expressions\<close>

text \<open>
  The patterns of the program are sequences of character classes under a quantifier, with
  groups, one alternation and one end anchor. \<open>rx_run\<close> is the backtracking matcher of
  Python's \<^verbatim>\<open>re\<close>: from a position it lists every way the pattern can match, in the
  order the backtracking tries them (a greedy quantifier from the longest run down, a
  lazy one from the shortest up, the left alternative first). The first element is the
  match Python reports. A state is the text still to read and the groups captured so far
  (the latest capture of a group first).
\<close>

datatype rx =
    Eps
  | Cls "char \<Rightarrow> bool"
  | Rep "char \<Rightarrow> bool" nat "nat option" bool
  | Seq rx rx
  | Alt rx rx
  | Grp nat rx
  | Eol

type_synonym caps = "(nat \<times> string) list"

fun rx_run :: "rx \<Rightarrow> string \<times> caps \<Rightarrow> (string \<times> caps) list" where
  "rx_run Eps st = [st]"
| "rx_run (Cls p) (s, c) =
     (case s of [] \<Rightarrow> [] | x # xs \<Rightarrow> if p x then [(xs, c)] else [])"
| "rx_run (Rep p lo hi greedy) (s, c) =
     (let n = length (takeWhile p s);
          m = (case hi of None \<Rightarrow> n | Some h \<Rightarrow> min h n);
          ks = (if lo \<le> m then [lo ..< Suc m] else [])
      in map (\<lambda>k. (drop k s, c)) (if greedy then rev ks else ks))"
| "rx_run (Seq a b) st = concat (map (rx_run b) (rx_run a st))"
| "rx_run (Alt a b) st = rx_run a st @ rx_run b st"
| "rx_run (Grp g r) (s, c) =
     map (\<lambda>(s', c'). (s', (g, take (length s - length s') s) # c')) (rx_run r (s, c))"
| "rx_run Eol (s, c) = (if s = [] \<or> s = [NL] then [(s, c)] else [])"

fun seqs :: "rx list \<Rightarrow> rx" where
  "seqs [] = Eps"
| "seqs (r # rs) = Seq r (seqs rs)"

definition opt :: "(char \<Rightarrow> bool) \<Rightarrow> rx" where
  "opt p = Rep p 0 (Some 1) True"

definition star :: "(char \<Rightarrow> bool) \<Rightarrow> rx" where
  "star p = Rep p 0 None True"

definition plus :: "(char \<Rightarrow> bool) \<Rightarrow> rx" where
  "plus p = Rep p 1 None True"

definition one_of :: "string \<Rightarrow> char \<Rightarrow> bool" where
  "one_of cs c = (c \<in> set cs)"

definition non_space :: "char \<Rightarrow> bool" where
  "non_space c = (\<not> is_space c)"

definition any_char :: "char \<Rightarrow> bool" where
  "any_char c = (c \<noteq> NL)"

text \<open>
  \<^verbatim>\<open>re.match\<close> matches at the start of the string (where a leading \<^verbatim>\<open>^\<close> holds):
  the result is the matched text (group 0) and the groups. \<^verbatim>\<open>re.search\<close> takes the
  leftmost position with a match. \<^verbatim>\<open>re.findall\<close> collects the matches from left to
  right, each search starting where the last match ended (\<open>skip\<close> counts the
  characters of the last match still to pass).
\<close>

definition re_match :: "rx \<Rightarrow> string \<Rightarrow> (string \<times> caps) option" where
  "re_match r s =
     (case rx_run r (s, []) of
        [] \<Rightarrow> None
      | (rest, c) # _ \<Rightarrow> Some (take (length s - length rest) s, c))"

fun re_search :: "rx \<Rightarrow> string \<Rightarrow> (string \<times> caps) option" where
  "re_search r [] = re_match r []"
| "re_search r (x # xs) =
     (case re_match r (x # xs) of Some m \<Rightarrow> Some m | None \<Rightarrow> re_search r xs)"

fun findall_from :: "rx \<Rightarrow> nat \<Rightarrow> string \<Rightarrow> (string \<times> caps) list" where
  "findall_from r skip [] = []"
| "findall_from r skip (x # xs) =
     (if 0 < skip then findall_from r (skip - 1) xs
      else case re_match r (x # xs) of
             None \<Rightarrow> findall_from r 0 xs
           | Some (g0, c) \<Rightarrow> (g0, c) # findall_from r (length g0 - 1) xs)"

definition re_findall :: "rx \<Rightarrow> string \<Rightarrow> (string \<times> caps) list" where
  "re_findall r s = findall_from r 0 s"

definition group :: "caps \<Rightarrow> nat \<Rightarrow> string" where
  "group c g = (case map_of c g of Some s \<Rightarrow> s | None \<Rightarrow> [])"

text \<open>The patterns of the program, in the order they appear in it.\<close>

text \<open>\<^verbatim>\<open>[-+]?\d+\.\d+\s+[-+]?\d+\.\d+\s+[-+]?\d+\.\d+\<close>\<close>

definition rx_three_decimals :: rx where
  "rx_three_decimals =
     seqs [opt (one_of ''-+''), plus is_digit, Cls (one_of ''.''), plus is_digit, plus is_space,
           opt (one_of ''-+''), plus is_digit, Cls (one_of ''.''), plus is_digit, plus is_space,
           opt (one_of ''-+''), plus is_digit, Cls (one_of ''.''), plus is_digit]"

text \<open>\<^verbatim>\<open>^\s*\d+\s+\S+\s+\S+\s+\S+\s+\S+\s+[-+]?\d+\.\d+\<close>\<close>

definition rx_columnar :: rx where
  "rx_columnar =
     seqs [star is_space, plus is_digit, plus is_space, plus non_space, plus is_space,
           plus non_space, plus is_space, plus non_space, plus is_space, plus non_space,
           plus is_space, opt (one_of ''-+''), plus is_digit, Cls (one_of ''.''),
           plus is_digit]"

text \<open>\<^verbatim>\<open>^\s*\d+\s+[A-Z0-9]\<close>\<close>

definition rx_digits_token :: rx where
  "rx_digits_token =
     seqs [star is_space, plus is_digit, plus is_space,
           Cls (\<lambda>c. c \<in> set uppercase \<or> is_digit c)]"

text \<open>\<^verbatim>\<open>^\s*([A-Za-z0-9_\- ]{1,60}?)\s*[:\-]\s*(.+)$\<close>\<close>

definition rx_generic :: rx where
  "rx_generic =
     seqs [star is_space,
           Grp 1 (Rep (\<lambda>c. is_alpha c \<or> is_digit c \<or> c \<in> set ''_- '') 1 (Some 60) False),
           star is_space, Cls (one_of '':-''), star is_space, Grp 2 (plus any_char), Eol]"

text \<open>\<^verbatim>\<open>([A-Za-z]+)\s*[:=]?\s*(\d+)\<close>\<close>

definition rx_stoich :: rx where
  "rx_stoich =
     seqs [Grp 1 (plus is_alpha), star is_space, opt (one_of '':=''), star is_space,
           Grp 2 (plus is_digit)]"

text \<open>\<^verbatim>\<open>([A-Za-z]\d+)\<close>\<close>

definition rx_compact :: rx where
  "rx_compact = Grp 1 (seqs [Cls is_alpha, plus is_digit])"

text \<open>\<^verbatim>\<open>[-+]?\d*\.\d+|\d+\<close>\<close>

definition rx_number :: rx where
  "rx_number =
     Alt (seqs [opt (one_of ''-+''), star is_digit, Cls (one_of ''.''), plus is_digit])
         (plus is_digit)"

section \<open>The metadata parser\<close>

text \<open>
  A dictionary that keeps its insertion order is an association list with one entry for
  each key: \<open>dict_set\<close> replaces the value of a key in place and appends a new key.
\<close>

type_synonym 'v dict = "(string \<times> 'v) list"

definition dict_has :: "'v dict \<Rightarrow> string \<Rightarrow> bool" where
  "dict_has d k = (k \<in> set (map fst d))"

fun dict_set :: "'v dict \<Rightarrow> string \<Rightarrow> 'v \<Rightarrow> 'v dict" where
  "dict_set [] k v = [(k, v)]"
| "dict_set ((k', v') # d) k v = (if k' = k then (k, v) # d else (k', v') # dict_set d k v)"

text \<open>
  \<^verbatim>\<open>d.get(k)\<close> on a dictionary whose values are a string or \<^verbatim>\<open>None\<close>: \<^verbatim>\<open>None\<close>
  for a missing key as for a stored \<^verbatim>\<open>None\<close>. A value is true when it is a string
  that is not empty.
\<close>

definition dict_get :: "string option dict \<Rightarrow> string \<Rightarrow> string option" where
  "dict_get d k = (case map_of d k of Some v \<Rightarrow> v | None \<Rightarrow> None)"

definition truthy :: "string option \<Rightarrow> bool" where
  "truthy v = (case v of Some s \<Rightarrow> s \<noteq> [] | None \<Rightarrow> False)"

definition KEY_ALIASES :: "string list dict" where
  "KEY_ALIASES =
     [(''STOICH'', [''STOICH'', ''STOICHIOMETR'', ''TOICH'', ''STOI'']),
      (''SCORE'', [''SCORE'', ''GDT'', ''TM_SCORE'', ''TM-SCORE'', ''TM'', ''QMEAN'']),
      (''METHOD'', [''METHOD'', ''ETHOD'']),
      (''AUTHOR'', [''AUTHOR'', ''UTHOR'']),
      (''MODEL'', [''MODEL'']),
      (''FORMAT'', [''FORMAT'', ''FRMAT'', ''FRM'']),
      (''TITLE'', [''TITLE'', ''TITL'']),
      (''COMPND'', [''COMPND'', ''COMPOUND'', ''COMPONENT''])]"

definition looks_like_coordinate_line :: "string \<Rightarrow> bool" where
  "looks_like_coordinate_line s =
     (if s = [] \<or> py_strip s = [] then False
      else if re_search rx_three_decimals s \<noteq> None then True
      else if list_ex (startswith (py_upper (py_strip s)))
                [''ATOM'', ''HETATM'', ''TER'', ''ENDMDL''] then True
      else if re_match rx_columnar s \<noteq> None then True
      else False)"

definition identify_canonical_key :: "string \<Rightarrow> string \<Rightarrow> string option" where
  "identify_canonical_key line_upper left_token_upper =
     (case List.find (\<lambda>(canon, aliases).
                list_ex (\<lambda>a. a \<noteq> [] \<and> substring_in a line_upper) aliases) KEY_ALIASES of
        Some (canon, aliases) \<Rightarrow> Some canon
      | None \<Rightarrow>
          if left_token_upper \<noteq> [] then
            List.find (\<lambda>canon. substring_in canon (left_token_upper @ take 20 line_upper))
              (map fst KEY_ALIASES)
          else None)"

definition extract_value_from_line :: "string \<Rightarrow> string" where
  "extract_value_from_line original_line =
     (if CHR '':'' \<in> set original_line then
        rstrip_chars '' .;'' (py_strip (py_strip (snd (split_colon1 original_line))))
      else
        case split_ws1 (py_strip original_line) of
          [p0, p1] \<Rightarrow> rstrip_chars '' .;'' (py_strip p1)
        | _ \<Rightarrow> rstrip_chars '' .;'' (py_strip original_line))"

text \<open>
  The loops of \<^verbatim>\<open>_clean_leading_fragment\<close> return at the first alias, in the order of
  the table, that the value starts with and that leaves a rest after it.
\<close>

definition clean_leading_fragment :: "string \<Rightarrow> string" where
  "clean_leading_fragment val =
     (if val = [] then val
      else
        let vup = py_lstrip (py_upper val) in
        case List.find (\<lambda>a. a \<noteq> [] \<and> startswith vup a \<and>
                              lstrip_chars '' :-.'' (drop (length a) val) \<noteq> [])
               (concat (map snd KEY_ALIASES)) of
          Some a \<Rightarrow> lstrip_chars '' :-.'' (drop (length a) val)
        | None \<Rightarrow> val)"

text \<open>
  The loop over the tokens keeps the first token of each letter group: \<open>seen\<close> are the
  groups met so far, the result the parts \<^verbatim>\<open>f"{key}{num}"\<close> in order.
\<close>

fun stoich_parts :: "string list \<Rightarrow> (string \<times> string) list \<Rightarrow> string list" where
  "stoich_parts seen [] = []"
| "stoich_parts seen ((letter, num) # tokens) =
     (let key = py_strip letter in
      if key \<notin> set seen then (key @ num) # stoich_parts (seen @ [key]) tokens
      else stoich_parts seen tokens)"

definition find_stoich_tokens_in_text :: "string \<Rightarrow> string option" where
  "find_stoich_tokens_in_text text_in =
     (if text_in = [] then None
      else
        let tokens = map (\<lambda>(g0, c). (group c 1, group c 2)) (re_findall rx_stoich text_in) in
        if tokens \<noteq> [] then
          (let parts = stoich_parts [] tokens in
           if parts \<noteq> [] then Some (concat parts) else None)
        else
          let compact = map (\<lambda>(g0, c). group c 1) (re_findall rx_compact text_in) in
          if compact \<noteq> [] then Some (concat compact) else None)"

text \<open>
  The state of the header scan: the canonical fields \<open>out\<close>, the remarks and the
  dictionary \<open>other\<close>.
\<close>

record pstate =
  out :: "string option dict"
  remarks :: "string list"
  other :: "string dict"

definition init_state :: pstate where
  "init_state = \<lparr>out = map (\<lambda>k. (k, None)) (map fst KEY_ALIASES), remarks = [], other = []\<rparr>"

text \<open>
  The left token of a line: the text before the first colon, else the first word, in
  upper case.
\<close>

definition left_token_of :: "string \<Rightarrow> string" where
  "left_token_of line =
     (if CHR '':'' \<in> set line then py_upper (py_strip (fst (split_colon1 line)))
      else case split_ws1 (py_strip line) of
             [] \<Rightarrow> []
           | p0 # ps \<Rightarrow> py_upper p0)"

text \<open>
  The parts of the loop body for a line that is neither blank nor coordinate-like: the
  test for a remark, the variable \<^verbatim>\<open>canon\<close>, the variable \<^verbatim>\<open>val\<close> after
  \<^verbatim>\<open>_clean_leading_fragment\<close>, and the test under which a value is dropped.
\<close>

definition is_remark_line :: "string \<Rightarrow> bool" where
  "is_remark_line line = startswith (py_strip (py_upper line)) ''REMARK''"

definition canon_of_line :: "string \<Rightarrow> string option" where
  "canon_of_line line = identify_canonical_key (py_upper line) (left_token_of line)"

definition value_of_line :: "string \<Rightarrow> string" where
  "value_of_line line = clean_leading_fragment (extract_value_from_line line)"

definition is_noise :: "string \<Rightarrow> bool" where
  "is_noise val = (looks_like_coordinate_line val \<or> re_match rx_digits_token val \<noteq> None)"

text \<open>
  The body of the loop from \<^verbatim>\<open>up = line.upper()\<close> on; \<open>i\<close> is the index of the
  line in the file. Every branch ends the iteration.
\<close>

definition header_line :: "nat \<Rightarrow> string \<Rightarrow> pstate \<Rightarrow> pstate" where
  "header_line i line st =
     (if is_remark_line line then st\<lparr>remarks := remarks st @ [py_strip line]\<rparr>
      else
        case canon_of_line line of
          Some canon \<Rightarrow>
            (let val = value_of_line line in
             if is_noise val then st
             else if val \<noteq> [] then st\<lparr>out := dict_set (out st) canon (Some val)\<rparr>
             else st)
        | None \<Rightarrow>
            (case re_match rx_generic line of
               Some (g0, c) \<Rightarrow>
                 (let gk = py_strip (group c 1); gv = py_strip (group c 2) in
                  if gk \<noteq> [] \<and> gv \<noteq> [] \<and> \<not> dict_has (other st) gk
                  then st\<lparr>other := dict_set (other st) gk gv\<rparr>
                  else st)
             | None \<Rightarrow>
                 if line \<noteq> [] \<and> length (py_strip line) < 300 then
                   (let tag = ''LINE_'' @ decimal i in
                    if \<not> dict_has (other st) tag
                    then st\<lparr>other := dict_set (other st) tag (py_strip line)\<rparr>
                    else st)
                 else st))"

text \<open>
  The loop \<^verbatim>\<open>for i, raw in enumerate(fh)\<close> over the raw lines the file yields: it ends
  at the end of the lines, at the first index beyond \<open>max_header_lines\<close> and at the
  first coordinate-like line; a blank line is passed over.
\<close>

fun header_scan :: "nat \<Rightarrow> nat \<Rightarrow> string list \<Rightarrow> pstate \<Rightarrow> pstate" where
  "header_scan max_header_lines i [] st = st"
| "header_scan max_header_lines i (raw # rest) st =
     (if i > max_header_lines then st
      else
        let line = rstrip_chars [NL] raw in
        if py_strip line = [] then header_scan max_header_lines (Suc i) rest st
        else if looks_like_coordinate_line line then st
        else header_scan max_header_lines (Suc i) rest (header_line i line st))"

text \<open>
  The parsed record. Every record the parser builds holds the key \<^verbatim>\<open>REMARKS\<close>, so a
  record is never an empty dictionary: \<open>canon\<close> are its entries for the canonical
  keys, in order, \<open>OTHER\<close> is absent when the key is.
\<close>

record meta =
  canon :: "string option dict"
  REMARKS :: "string list"
  OTHER :: "string dict option"

definition or_none :: "string option \<Rightarrow> string option" where
  "or_none v = (if truthy v then v else None)"

definition post_stoich :: "string option dict \<Rightarrow> string \<Rightarrow> string option dict" where
  "post_stoich d text_in =
     (if \<not> truthy (dict_get d ''STOICH'') \<and> \<not> truthy (dict_get d ''STOICHIOMETRY'') then
        (let found = find_stoich_tokens_in_text text_in in
         if truthy found then
           (if dict_has d ''STOICH'' then dict_set d ''STOICH'' found
            else dict_set d ''STOICHIOMETRY'' found)
         else d)
      else d)"

definition post_score :: "string option dict \<Rightarrow> string option dict" where
  "post_score d =
     (case dict_get d ''SCORE'' of
        None \<Rightarrow> d
      | Some v \<Rightarrow>
          if v \<noteq> [] then
            (case re_search rx_number v of
               Some (g0, c) \<Rightarrow> dict_set d ''SCORE'' (Some g0)
             | None \<Rightarrow> d)
          else d)"

text \<open>
  The parser on what it reads from an existing path: \<open>raw_lines\<close> are the lines the
  iteration over the file yields before it ends (at the end of the file, or at an error
  that the \<^verbatim>\<open>except\<close> clause swallows), \<open>text_in\<close> is what \<^verbatim>\<open>_collect_all_text\<close>
  returns (the whole content, or the empty string after an error).
\<close>

definition parse_core :: "nat \<Rightarrow> string list \<Rightarrow> string \<Rightarrow> meta" where
  "parse_core max_header_lines raw_lines text_in =
     (let st = header_scan max_header_lines 0 raw_lines init_state;
          d = post_score (post_stoich (out st) text_in)
      in \<lparr>canon = map (\<lambda>k. (k, or_none (dict_get d k))) (map fst KEY_ALIASES),
          REMARKS = remarks st,
          OTHER = (if other st \<noteq> [] then Some (other st) else None)\<rparr>)"

section \<open>The file system\<close>

text \<open>
  A path that exists names a directory, with the names \<^verbatim>\<open>os.listdir\<close> returns in
  their order (none when the listing fails), or a file. A file is what the program reads
  from it: the raw lines the iteration of the header scan yields before it ends (at the
  end of the file or at a read error) and the text \<^verbatim>\<open>fh.read()\<close> returns (the empty
  string when it fails). \<open>plain_file\<close> is a file that is read without an error;
  its content is the text as Python hands it over, decoded and with every line ending
  translated to a line feed. Opening a directory raises, so a directory yields no line
  and no text. One call of a command sees one state of the file system.
\<close>

datatype node = Dir "string list" | File "string list" string

type_synonym filesystem = "string \<Rightarrow> node option"

definition plain_file :: "string \<Rightarrow> node" where
  "plain_file content = File (py_lines content) content"

definition path_exists :: "filesystem \<Rightarrow> string \<Rightarrow> bool" where
  "path_exists fs p = (fs p \<noteq> None)"

definition isfile :: "filesystem \<Rightarrow> string \<Rightarrow> bool" where
  "isfile fs p = (case fs p of Some (File ls t) \<Rightarrow> True | _ \<Rightarrow> False)"

definition isdir :: "filesystem \<Rightarrow> string \<Rightarrow> bool" where
  "isdir fs p = (case fs p of Some (Dir ns) \<Rightarrow> True | _ \<Rightarrow> False)"

definition listdir :: "filesystem \<Rightarrow> string \<Rightarrow> string list" where
  "listdir fs p = (case fs p of Some (Dir ns) \<Rightarrow> ns | _ \<Rightarrow> [])"

definition iter_lines :: "filesystem \<Rightarrow> string \<Rightarrow> string list" where
  "iter_lines fs p = (case fs p of Some (File ls t) \<Rightarrow> ls | _ \<Rightarrow> [])"

definition collect_all_text :: "filesystem \<Rightarrow> string \<Rightarrow> string" where
  "collect_all_text fs ts_path = (case fs ts_path of Some (File ls t) \<Rightarrow> t | _ \<Rightarrow> [])"

definition MAX_HEADER_LINES :: nat where
  "MAX_HEADER_LINES = 2000"

definition parse_ts_metadata :: "filesystem \<Rightarrow> string \<Rightarrow> nat \<Rightarrow> meta option" where
  "parse_ts_metadata fs ts_path max_header_lines =
     (if ts_path = [] \<or> \<not> path_exists fs ts_path then None
      else Some (parse_core max_header_lines (iter_lines fs ts_path)
                   (collect_all_text fs ts_path)))"

section \<open>Rendering\<close>

text \<open>
  What the program prints is a list of lines. A line is a text, or a text followed by a
  list of names where \<^verbatim>\<open>print\<close> is given a list as its last argument.
\<close>

datatype printed = Line string | Line_names string "string list"

definition FRIENDLY :: "string dict" where
  "FRIENDLY =
     [(''STOICH'', ''Stoichiometry''),
      (''SCORE'', ''Score(s)''),
      (''METHOD'', ''Method''),
      (''AUTHOR'', ''Author''),
      (''MODEL'', ''Model'')]"

definition friendly_label :: "string \<Rightarrow> string" where
  "friendly_label k = (case map_of FRIENDLY k of Some l \<Rightarrow> l | None \<Rightarrow> k)"

definition order :: "string list" where
  "order = [''STOICH'', ''AUTHOR'', ''METHOD'', ''SCORE'', ''MODEL'']"

text \<open>
  The loop over \<open>order\<close>, with the lines printed so far and the flag
  \<^verbatim>\<open>any_printed\<close>. The keys of \<open>order\<close> are canonical keys, so \<^verbatim>\<open>meta.get(k)\<close>
  reads the canonical entries.
\<close>

fun print_fields :: "meta \<Rightarrow> string list \<Rightarrow> printed list \<times> bool \<Rightarrow> printed list \<times> bool" where
  "print_fields m [] acc = acc"
| "print_fields m (k # ks) (ls, any_printed) =
     (case dict_get (canon m) k of
        None \<Rightarrow> print_fields m ks (ls, any_printed)
      | Some v \<Rightarrow>
          if v \<noteq> [] then print_fields m ks (ls @ [Line (friendly_label k @ '': '' @ v)], True)
          else print_fields m ks (ls, any_printed))"

definition pretty_print_trimmed :: "string \<Rightarrow> meta option \<Rightarrow> printed list" where
  "pretty_print_trimmed key m_opt =
     Line (''=== TS metadata for: '' @ key @ '' ==='') #
     (case m_opt of
        None \<Rightarrow> [Line ''  (no TS metadata available)'']
      | Some m \<Rightarrow>
          (case print_fields m order ([], False) of
             (ls, any_printed) \<Rightarrow>
               if \<not> any_printed then ls @ [Line ''  (no recognized metadata fields found)'']
               else ls))"

section \<open>Paths and the host\<close>

text \<open>
  The path functions of \<^verbatim>\<open>os.path\<close> on a POSIX system: the separator is the slash.
\<close>

definition basename :: "string \<Rightarrow> string" where
  "basename p = rev (takeWhile (\<lambda>c. c \<noteq> CHR ''/'') (rev p))"

definition dirname :: "string \<Rightarrow> string" where
  "dirname p =
     (let head = take (length p - length (basename p)) p in
      if head \<noteq> [] \<and> \<not> list_all (\<lambda>c. c = CHR ''/'') head then rstrip_chars ''/'' head
      else head)"

text \<open>
  \<^verbatim>\<open>os.path.splitext\<close>: the extension starts at the last dot of the last component,
  unless only dots stand before it there.
\<close>

definition splitext :: "string \<Rightarrow> string \<times> string" where
  "splitext p =
     (let b = basename p in
      if CHR ''.'' \<in> set b then
        (let ext = CHR ''.'' # rev (takeWhile (\<lambda>c. c \<noteq> CHR ''.'') (rev b));
             stem = take (length b - length ext) b
         in if list_ex (\<lambda>c. c \<noteq> CHR ''.'') stem
            then (take (length p - length ext) p, ext)
            else (p, []))
      else (p, []))"

definition path_join :: "string \<Rightarrow> string \<Rightarrow> string" where
  "path_join a b =
     (if startswith b ''/'' then b
      else if a = [] \<or> endswith a ''/'' then a @ b
      else a @ ''/'' @ b)"

text \<open>
  The host of the script: the file system, \<^verbatim>\<open>os.path.expanduser\<close>, the names of the
  open objects (\<^verbatim>\<open>cmd.get_names()\<close>), the working directory, the directory of the
  script, and what \<^verbatim>\<open>input\<close> returns (nothing when it raises).
\<close>

record env =
  env_fs :: filesystem
  env_expanduser :: "string \<Rightarrow> string"
  env_names :: "string list"
  env_cwd :: string
  env_script_dir :: string
  env_input :: "string option"

text \<open>
  The cache \<^verbatim>\<open>_TS_META_CACHE\<close>, a dictionary: a key never stored, a key stored with
  \<^verbatim>\<open>None\<close>, a key stored with a record. \<^verbatim>\<open>_TS_META_CACHE.get(key)\<close> is \<^verbatim>\<open>None\<close>
  in the first two cases.
\<close>

type_synonym cache = "meta option dict"

definition cache_get :: "cache \<Rightarrow> string \<Rightarrow> meta option" where
  "cache_get c key = (case map_of c key of Some v \<Rightarrow> v | None \<Rightarrow> None)"

definition cache_set :: "cache \<Rightarrow> string \<Rightarrow> meta option \<Rightarrow> cache" where
  "cache_set c key v = dict_set c key v"

section \<open>The commands\<close>

definition find_ts_candidate :: "filesystem \<Rightarrow> string \<Rightarrow> string option" where
  "find_ts_candidate fs pdb_path =
     (let base = fst (splitext pdb_path);
          candidates = [base @ ''.ts'', base @ ''.TS'', base @ ''_TS.txt'', base @ ''_ts.txt'',
                        base @ ''.txt'']
      in case List.find (path_exists fs) candidates of
           Some c \<Rightarrow> Some c
         | None \<Rightarrow>
             (let d = (if dirname pdb_path \<noteq> [] then dirname pdb_path else ''.'') in
              map_option (path_join d)
                (List.find (\<lambda>fn. substring_in base fn \<and> substring_in ''TS'' (py_upper fn) \<and>
                                  (endswith (py_lower fn) ''.txt'' \<or> endswith (py_lower fn) ''.ts'') \<and>
                                  isfile fs (path_join d fn))
                   (listdir fs d))))"

datatype resolved = Path string | Object string | Unresolved

definition resolve_object_or_path :: "env \<Rightarrow> string \<Rightarrow> resolved" where
  "resolve_object_or_path e identifier =
     (let p = env_expanduser e identifier in
      if path_exists (env_fs e) p \<and> (endswith (py_lower p) ''.pdb'' \<or> endswith (py_lower p) ''.ent'')
      then Path p
      else
        let objs = env_names e in
        if identifier \<in> set objs then Object identifier
        else case filter (\<lambda>n. substring_in identifier n) objs of
               [n] \<Rightarrow> Object n
             | _ \<Rightarrow> Unresolved)"

text \<open>
  \<^verbatim>\<open>load_model_with_ts\<close> returns the dictionary of the object, the TS path and the
  record; with it the model gives the cache after the call, the lines printed, and the
  path and name handed to \<^verbatim>\<open>cmd.load\<close> when a file was loaded.
\<close>

record load_result =
  lr_object :: "string option"
  lr_ts :: "string option"
  lr_meta :: "meta option"

definition load_model_with_ts ::
  "env \<Rightarrow> cache \<Rightarrow> string \<Rightarrow> string option \<Rightarrow>
     load_result \<times> cache \<times> printed list \<times> (string \<times> string) option" where
  "load_model_with_ts e c pdb_or_obj ts_path =
     (case resolve_object_or_path e pdb_or_obj of
        Unresolved \<Rightarrow>
          (\<lparr>lr_object = None, lr_ts = None, lr_meta = None\<rparr>, c,
           [Line (''load_model_with_ts: neither file nor open object found for: '' @ pdb_or_obj)],
           None)
      | r \<Rightarrow>
          (let obj_name = (case r of Path p \<Rightarrow> fst (splitext (basename p)) | Object n \<Rightarrow> n
                           | Unresolved \<Rightarrow> []);
               pdb_path = (case r of Path p \<Rightarrow> Some p | _ \<Rightarrow> None);
               loaded = (case r of Path p \<Rightarrow> Some (p, obj_name) | _ \<Rightarrow> None);
               given = (case ts_path of
                          Some t \<Rightarrow> if t \<noteq> [] then Some (env_expanduser e t) else None
                        | None \<Rightarrow> None);
               missing = (case given of
                            Some t \<Rightarrow> \<not> path_exists (env_fs e) t
                          | None \<Rightarrow> False);
               ts1 = (if missing then None else given);
               ts2 = (case ts1 of
                        Some t \<Rightarrow> Some t
                      | None \<Rightarrow>
                          (case pdb_path of
                             Some p \<Rightarrow> find_ts_candidate (env_fs e) p
                           | None \<Rightarrow> None));
               m = (case ts2 of
                      Some t \<Rightarrow> parse_ts_metadata (env_fs e) t MAX_HEADER_LINES
                    | None \<Rightarrow> None)
           in (\<lparr>lr_object = Some obj_name, lr_ts = ts2, lr_meta = m\<rparr>,
               cache_set c obj_name m,
               (case given of
                  Some t \<Rightarrow>
                    if missing then [Line (''load_model_with_ts: provided TS not found: '' @ t)]
                    else []
                | None \<Rightarrow> []) @
               [Line (''load_model_with_ts: object: '' @ obj_name @ '' '' @
                      '' (pdb loaded from: '' @
                      (case pdb_path of Some p \<Rightarrow> p | None \<Rightarrow> ''already-open'') @ '')'')] @
               [case ts2 of
                  Some t \<Rightarrow> Line (''TS used: '' @ t)
                | None \<Rightarrow> Line ''TS file: not found (searched common candidates).''] @
               pretty_print_trimmed obj_name m,
               loaded)))"

text \<open>
  The object \<^verbatim>\<open>attach_ts\<close> attaches to: the identifier when it names an open object,
  else the only open object whose name contains it.
\<close>

definition attach_target :: "string list \<Rightarrow> string \<Rightarrow> string option" where
  "attach_target objs obj_identifier =
     (if obj_identifier \<in> set objs then Some obj_identifier
      else case filter (\<lambda>n. substring_in obj_identifier n) objs of
             [n] \<Rightarrow> Some n
           | _ \<Rightarrow> None)"

definition attach_ts :: "env \<Rightarrow> cache \<Rightarrow> string \<Rightarrow> string \<Rightarrow> cache \<times> printed list" where
  "attach_ts e c ts_path0 obj_identifier =
     (let ts_path = env_expanduser e ts_path0 in
      if \<not> path_exists (env_fs e) ts_path
      then (c, [Line (''attach_ts: TS file not found: '' @ ts_path)])
      else
        let objs = env_names e in
        case attach_target objs obj_identifier of
          None \<Rightarrow>
            (let matches = filter (\<lambda>n. substring_in obj_identifier n) objs in
             if 1 < length matches
             then (c, [Line_names
                         ''attach_ts: ambiguous object identifier matched multiple objects:''
                         matches])
             else (c, [Line_names ''attach_ts: object not found (available objects):'' objs]))
        | Some obj_name \<Rightarrow>
            (case parse_ts_metadata (env_fs e) ts_path MAX_HEADER_LINES of
               None \<Rightarrow> (c, [Line ''attach_ts: parsing returned no metadata.''])
             | Some res \<Rightarrow>
                 (cache_set c obj_name (Some res),
                  Line (''attach_ts: attached metadata from '' @ basename ts_path @
                        '' to object '' @ obj_name) #
                  pretty_print_trimmed obj_name (Some res))))"

text \<open>
  The helper \<^verbatim>\<open>_show_for_key\<close> of \<^verbatim>\<open>show_ts_info\<close>. Its search for a TS file:
  the candidates are the \<^verbatim>\<open>.txt\<close> and \<^verbatim>\<open>.ts\<close> names of the four directories; the
  result is the file chosen and the key to cache it under (the name of an open object
  when the file was found through one).
\<close>

definition QUOTE :: char where
  "QUOTE = CHR 0x27"

definition gather_candidates :: "filesystem \<Rightarrow> string list \<Rightarrow> string list" where
  "gather_candidates fs search_dirs =
     concat (map (\<lambda>d.
       if \<not> isdir fs d then []
       else map (path_join d)
              (filter (\<lambda>fn. endswith (py_lower fn) ''.txt'' \<or> endswith (py_lower fn) ''.ts'')
                 (listdir fs d))) search_dirs)"

definition discover :: "env \<Rightarrow> string \<Rightarrow> (string \<times> string) option" where
  "discover e key =
     (let cwd = env_cwd e;
          script_dir = env_script_dir e;
          home = env_expanduser e ''~'';
          examples_dir = path_join script_dir ''examples'';
          candidates = gather_candidates (env_fs e) [cwd, examples_dir, script_dir, home];
          key_up = py_upper key;
          basematches =
            filter (\<lambda>path. py_upper (fst (splitext (basename path))) = key_up) candidates;
          substrmatches =
            filter (\<lambda>path. py_upper (fst (splitext (basename path))) \<noteq> key_up \<and>
                            substring_in key_up (py_upper (basename path))) candidates
      in case basematches of
           path # _ \<Rightarrow> Some (path, key)
         | [] \<Rightarrow>
             (case substrmatches of
                path # _ \<Rightarrow> Some (path, key)
              | [] \<Rightarrow>
                  (case List.find (\<lambda>n. (key = n \<or> substring_in key n) \<and>
                           list_ex (\<lambda>path. substring_in (py_upper n) (py_upper (basename path)))
                             candidates) (env_names e) of
                     None \<Rightarrow> None
                   | Some n \<Rightarrow>
                       map_option (\<lambda>path. (path, n))
                         (List.find (\<lambda>path. substring_in (py_upper n) (py_upper (basename path)))
                            candidates))))"

definition show_for_key ::
  "env \<Rightarrow> cache \<Rightarrow> string \<Rightarrow> string option \<Rightarrow> bool \<times> cache \<times> printed list" where
  "show_for_key e c key explicit_ts =
     (case cache_get c key of
        Some m \<Rightarrow> (True, c, pretty_print_trimmed key (Some m))
      | None \<Rightarrow>
          if truthy explicit_ts then
            (let ts_expanded = env_expanduser e (case explicit_ts of Some t \<Rightarrow> t | None \<Rightarrow> []) in
             if path_exists (env_fs e) ts_expanded \<and> isfile (env_fs e) ts_expanded then
               (case parse_ts_metadata (env_fs e) ts_expanded MAX_HEADER_LINES of
                  Some parsed \<Rightarrow>
                    (True, cache_set c key (Some parsed),
                     Line (''show_ts_info: parsed and cached TS from: '' @ ts_expanded @
                           '' -> key: '' @ key) #
                     pretty_print_trimmed key (Some parsed))
                | None \<Rightarrow>
                    (False, c, [Line (''show_ts_info: parsing failed for: '' @ ts_expanded)]))
             else
               (False, c,
                [Line (''show_ts_info: provided TS path not found: '' @
                       (case explicit_ts of Some t \<Rightarrow> t | None \<Rightarrow> []))]))
          else
            (case discover e key of
               Some (chosen, key') \<Rightarrow>
                 (case parse_ts_metadata (env_fs e) chosen MAX_HEADER_LINES of
                    Some parsed \<Rightarrow>
                      (True, cache_set c key' (Some parsed),
                       Line (''show_ts_info: found TS '' @ [QUOTE] @ basename chosen @ [QUOTE] @
                             '' -> parsed & cached under key: '' @ key') #
                       pretty_print_trimmed key' (Some parsed))
                  | None \<Rightarrow>
                      (False, c,
                       [Line (''show_ts_info: found candidate TS but parsing failed: '' @ chosen)]))
             | None \<Rightarrow> (False, c, [])))"

text \<open>
  \<^verbatim>\<open>show_ts_info\<close>. With a name it shows that key. With none it takes the only open
  object, or asks which one among several: the reply is a number of the list or a name.
\<close>

definition no_metadata_help :: "string \<Rightarrow> printed list" where
  "no_metadata_help target =
     [Line (''show_ts_info: no metadata cached for '' @ [QUOTE] @ target @ [QUOTE] @
            '' and no TS file found automatically.''),
      Line ''You can run: parse_ts /path/to/TS.txt  OR  show_ts_info <object_name>, /path/to/TS.txt'']"

definition show_or_help ::
  "env \<Rightarrow> cache \<Rightarrow> string \<Rightarrow> string option \<Rightarrow> printed list \<Rightarrow> cache \<times> printed list" where
  "show_or_help e c target ts_path shown =
     (case show_for_key e c target ts_path of
        (ok, c', ls) \<Rightarrow> (c', shown @ ls @ (if \<not> ok then no_metadata_help target else [])))"

definition isdigit :: "string \<Rightarrow> bool" where
  "isdigit s = (s \<noteq> [] \<and> list_all is_digit s)"

definition int_of :: "string \<Rightarrow> nat" where
  "int_of s = foldl (\<lambda>a ch. 10 * a + (of_char ch - 48)) 0 s"

definition show_ts_info ::
  "env \<Rightarrow> cache \<Rightarrow> string option \<Rightarrow> string option \<Rightarrow> cache \<times> printed list" where
  "show_ts_info e c obj_or_key ts_path =
     (if truthy obj_or_key then
        (let key = (case obj_or_key of Some k \<Rightarrow> k | None \<Rightarrow> []) in
         case show_for_key e c key ts_path of
           (ok, c', ls) \<Rightarrow>
             (c', ls @
                (if \<not> ok then
                   [Line (''show_ts_info: no cached metadata for '' @ [QUOTE] @ key @ [QUOTE] @
                          '' and no TS file found automatically.''),
                    Line ''Options:'',
                    Line ''  1) Run parse_ts /path/to/that_TS.txt (caches under TS basename).'',
                    Line ''  2) Call with explicit TS path to parse & attach now:'',
                    Line ''       show_ts_info <object_or_key>, /full/path/to/that_TS.txt'']
                 else [])))
      else
        let objs = env_names e in
        case objs of
          [] \<Rightarrow>
            (c, [Line (''show_ts_info: no open objects in PyMOL. '' @
                       ''Load a model or run parse_ts/show_ts_info <name>.'')])
        | [target] \<Rightarrow>
            show_or_help e c target ts_path
              [Line (''show_ts_info: one object open, using: '' @ target)]
        | _ \<Rightarrow>
            (let listing =
                   Line ''show_ts_info: multiple objects are open. Please choose which model to show:'' #
                   map (\<lambda>(i, n). Line (''  '' @ decimal i @ '') '' @ n))
                     (zip [1 ..< Suc (length objs)] objs);
                 sel = (case env_input e of Some r \<Rightarrow> py_strip r | None \<Rightarrow> [])
             in if sel = [] then
                  (c, listing @
                      [Line ''show_ts_info: selection cancelled. Re-run with the chosen name, e.g.:'',
                       Line ''   show_ts_info <object_name>''])
                else if isdigit sel then
                  (if 1 \<le> int_of sel \<and> int_of sel \<le> length objs then
                     show_or_help e c (objs ! (int_of sel - 1)) ts_path
                       (listing @
                        [Line (''show_ts_info: you selected: '' @ objs ! (int_of sel - 1))])
                   else (c, listing @ [Line ''show_ts_info: invalid number selection.'']))
                else if sel \<in> set objs then show_or_help e c sel ts_path listing
                else
                  (case filter (\<lambda>n. substring_in sel n) objs of
                     [n] \<Rightarrow> show_or_help e c n ts_path listing
                   | [] \<Rightarrow>
                       (c, listing @
                           [Line ''show_ts_info: no open object matched your input.'',
                            Line ''Available objects:''] @
                           map (\<lambda>n. Line (''   '' @ n)) objs)
                   | matches \<Rightarrow>
                       (c, listing @
                           [Line_names ''show_ts_info: ambiguous name matched multiple objects:''
                              matches,
                            Line ''Please call show_ts_info with the exact object name.'']))))"

section \<open>Example files\<close>

definition score_line :: string where
  "score_line = ''SCORE: GDT 0.8231 (model 1)''"

definition atom_line :: string where
  "atom_line =
     ''ATOM      1  N   ALA A   1      11.104  13.207   2.428  1.00 20.00           N''"

definition score_file :: string where
  "score_file = score_line @ [NL]"

definition score_file_in_header :: string where
  "score_file_in_header =
     ''REMARK CASP prediction'' @ [NL] @ ''AUTHOR: Some Group'' @ [NL] @
     score_line @ [NL] @ atom_line @ [NL]"

definition stoich_file :: string where
  "stoich_file = ''A: 2'' @ [NL] @ ''B: 3'' @ [NL]"

definition bare_key_file :: string where
  "bare_key_file = ''AUTHOR:'' @ [NL]"

definition example_host :: env where
  "example_host =
     \<lparr>env_fs = [''/work'' \<mapsto> Dir [''notes.md'', ''M1_TS.txt''],
                ''/work/M1_TS.txt'' \<mapsto> plain_file (''AUTHOR: Bob'' @ [NL])],
      env_expanduser = (\<lambda>p. p),
      env_names = [''M1''],
      env_cwd = ''/work'',
      env_script_dir = ''/scripts'',
      env_input = None\<rparr>"

definition bob_record :: meta where
  "bob_record =
     \<lparr>canon = [(''STOICH'', None), (''SCORE'', None), (''METHOD'', None),
               (''AUTHOR'', Some ''Bob''), (''MODEL'', None), (''FORMAT'', None),
               (''TITLE'', None), (''COMPND'', None)],
      REMARKS = [], OTHER = None\<rparr>"

section \<open>The words of the specification\<close>

text \<open>
  The listing as the specification describes it, to compare with
  \<open>pretty_print_trimmed\<close>: after the title line, the fields \<^verbatim>\<open>STOICH\<close>,
  \<^verbatim>\<open>AUTHOR\<close>, \<^verbatim>\<open>METHOD\<close>, \<^verbatim>\<open>SCORE\<close>, \<^verbatim>\<open>MODEL\<close> in this order, each under its
  label and only when it is not empty; one notice when none is; another notice when the
  record is absent.
\<close>

definition field_line :: "meta \<Rightarrow> string \<Rightarrow> string \<Rightarrow> printed list" where
  "field_line m k label =
     (case dict_get (canon m) k of
        Some v \<Rightarrow> if v \<noteq> [] then [Line (label @ '': '' @ v)] else []
      | None \<Rightarrow> [])"

definition render_spec :: "string \<Rightarrow> meta option \<Rightarrow> printed list" where
  "render_spec key m_opt =
     Line (''=== TS metadata for: '' @ key @ '' ==='') #
     (case m_opt of
        None \<Rightarrow> [Line ''  (no TS metadata available)'']
      | Some m \<Rightarrow>
          (let ls = field_line m ''STOICH'' ''Stoichiometry'' @
                    field_line m ''AUTHOR'' ''Author'' @
                    field_line m ''METHOD'' ''Method'' @
                    field_line m ''SCORE'' ''Score(s)'' @
                    field_line m ''MODEL'' ''Model''
           in if ls = [] then [Line ''  (no recognized metadata fields found)''] else ls))"

text \<open>The eight canonical keys, and a dictionary without one of its keys.\<close>

definition canonical_keys :: "string list" where
  "canonical_keys = [''STOICH'', ''SCORE'', ''METHOD'', ''AUTHOR'', ''MODEL'', ''FORMAT'',
                     ''TITLE'', ''COMPND'']"

definition dict_del :: "'v dict \<Rightarrow> string \<Rightarrow> 'v dict" where
  "dict_del d k = filter (\<lambda>(k', v). k' \<noteq> k) d"

text \<open>
  A header line stores its value under the key \<open>k\<close>: it is not blank, not
  coordinate-like and not a remark, \<open>k\<close> is the canonical key found for it, and its
  value is neither dropped as noise nor empty.
\<close>

definition kept_under :: "string \<Rightarrow> string \<Rightarrow> bool" where
  "kept_under k line =
     (py_strip line \<noteq> [] \<and> \<not> looks_like_coordinate_line line \<and> \<not> is_remark_line line \<and>
      canon_of_line line = Some k \<and> \<not> is_noise (value_of_line line) \<and>
      value_of_line line \<noteq> [])"

text \<open>The first number of a score value, the value itself when it holds none.\<close>

definition first_number :: "string \<Rightarrow> string" where
  "first_number v = (case re_search rx_number v of Some (g0, c) \<Rightarrow> g0 | None \<Rightarrow> v)"

text \<open>The least number of characters a pattern matches.\<close>

fun min_len :: "rx \<Rightarrow> nat" where
  "min_len Eps = 0"
| "min_len (Cls p) = 1"
| "min_len (Rep p lo hi greedy) = lo"
| "min_len (Seq a b) = min_len a + min_len b"
| "min_len (Alt a b) = min (min_len a) (min_len b)"
| "min_len (Grp g r) = min_len r"
| "min_len Eol = 0"

text \<open>More example files and lines.\<close>

definition trailer_file :: string where
  "trailer_file = atom_line @ [NL] @ ''STOICH: B5'' @ [NL]"

definition stoich_header_lines :: "string list" where
  "stoich_header_lines = [''STOICH: A2B2'' @ [NL], ''AUTHOR: Bob'' @ [NL]]"

definition two_author_lines :: "string list" where
  "two_author_lines = [''REMARK 1'' @ [NL], ''AUTHOR: Bob'' @ [NL]]"

definition alice_line :: string where
  "alice_line = ''AUTHOR: Alice'' @ [NL]"

definition lines_after_alice :: "string list" where
  "lines_after_alice = [''AUTHOR:'' @ [NL], ''TITLE: x'' @ [NL]]"

definition bob_line :: string where
  "bob_line = ''AUTHOR: Bob'' @ [NL]"

definition capped_file :: string where
  "capped_file = replicate MAX_HEADER_LINES NL @ bob_line"

definition score_file_with_trailer :: string where
  "score_file_with_trailer = score_file_in_header @ ''TM: 7'' @ [NL]"

definition score_header_before :: "string list" where
  "score_header_before = [''REMARK CASP prediction'' @ [NL], ''AUTHOR: Some Group'' @ [NL]]"

definition later_score_file :: string where
  "later_score_file = score_line @ [NL] @ ''TM: 7'' @ [NL]"

definition treatment_file :: string where
  "treatment_file = score_line @ [NL] @ ''TREATMENT: dry'' @ [NL]"

definition lines_from_atom :: "string list" where
  "lines_from_atom = [atom_line @ [NL], ''AUTHOR: Eve'' @ [NL]]"

definition eve_lines :: "string list" where
  "eve_lines = [''AUTHOR: Eve'' @ [NL]]"

definition repeated_stoich_file :: string where
  "repeated_stoich_file = ''A: 2'' @ [NL] @ ''B: 3'' @ [NL] @ ''A: 5'' @ [NL]"

definition remark_stoich_file :: string where
  "remark_stoich_file = ''REMARK 1'' @ [NL] @ ''A: 2'' @ [NL] @ ''B: 3'' @ [NL]"

section \<open>The header lines and their buckets\<close>

text \<open>
  The loop is over at the index \<open>i\<close>, where the lines \<open>ls\<close> begin: no line is
  left, or the index is beyond the cap, or the line at hand is coordinate-like.
\<close>

definition scan_ends :: "nat \<Rightarrow> nat \<Rightarrow> string list \<Rightarrow> bool" where
  "scan_ends mx i ls =
     (case ls of
        [] \<Rightarrow> True
      | raw # rest \<Rightarrow> mx < i \<or> looks_like_coordinate_line (rstrip_chars [NL] raw))"

text \<open>
  The header lines of a file as the loop reads them, each with its index: the lines that
  are not blank, up to the cap and before the first coordinate-like line.
\<close>

fun scanned_lines :: "nat \<Rightarrow> nat \<Rightarrow> string list \<Rightarrow> (nat \<times> string) list" where
  "scanned_lines mx i [] = []"
| "scanned_lines mx i (raw # rest) =
     (if i > mx then []
      else if py_strip (rstrip_chars [NL] raw) = [] then scanned_lines mx (Suc i) rest
      else if looks_like_coordinate_line (rstrip_chars [NL] raw) then []
      else (i, rstrip_chars [NL] raw) # scanned_lines mx (Suc i) rest)"

text \<open>
  The bucket of a header line, in the words of the specification. A line that starts
  with \<^verbatim>\<open>REMARK\<close> is a remark. Else, when a canonical key is found for it, it is that
  field with the value extracted, and nothing when the value is empty or noise. Else,
  when it has the generic shape of a key and a value, it is an entry of \<open>other\<close> under
  the trimmed key, and nothing when key or value is empty or the key is taken. Else it
  is the entry \<^verbatim>\<open>LINE_<i>\<close> of \<open>other\<close>, and nothing when it has 300 characters or
  more or the tag is taken. \<open>taken\<close> are the keys already in \<open>other\<close>. \<open>put\<close> adds
  a line to its bucket.
\<close>

datatype bucket =
    Remark string
  | Field string string
  | Other_keyed string string
  | Other_line string string
  | Nowhere

definition bucket_of :: "nat \<Rightarrow> string \<Rightarrow> string list \<Rightarrow> bucket" where
  "bucket_of i line taken =
     (if is_remark_line line then Remark (py_strip line)
      else case canon_of_line line of
             Some k \<Rightarrow>
               if value_of_line line = [] \<or> is_noise (value_of_line line) then Nowhere
               else Field k (value_of_line line)
           | None \<Rightarrow>
               (case re_match rx_generic line of
                  Some (g0, c) \<Rightarrow>
                    if py_strip (group c 1) = [] \<or> py_strip (group c 2) = [] \<or>
                       py_strip (group c 1) \<in> set taken
                    then Nowhere
                    else Other_keyed (py_strip (group c 1)) (py_strip (group c 2))
                | None \<Rightarrow>
                    if line = [] \<or> 300 \<le> length (py_strip line) \<or>
                       ''LINE_'' @ decimal i \<in> set taken
                    then Nowhere
                    else Other_line (''LINE_'' @ decimal i) (py_strip line)))"

fun put :: "bucket \<Rightarrow> pstate \<Rightarrow> pstate" where
  "put (Remark r) st = st\<lparr>remarks := remarks st @ [r]\<rparr>"
| "put (Field k v) st = st\<lparr>out := dict_set (out st) k (Some v)\<rparr>"
| "put (Other_keyed k v) st = st\<lparr>other := other st @ [(k, v)]\<rparr>"
| "put (Other_line k v) st = st\<lparr>other := other st @ [(k, v)]\<rparr>"
| "put Nowhere st = st"

section \<open>The stoichiometry of a text\<close>

text \<open>
  In the words of the specification: the tokens of a text are its runs of letters, an
  optional separator and digits; the stoichiometry is made of the distinct letter groups
  in the order they are first seen, each with the digits of its first token; there is
  none when the text has no token.
\<close>

definition stoich_tokens :: "string \<Rightarrow> (string \<times> string) list" where
  "stoich_tokens t = map (\<lambda>(g0, c). (group c 1, group c 2)) (re_findall rx_stoich t)"

definition first_seen :: "string list \<Rightarrow> string list" where
  "first_seen ks = rev (remdups (rev ks))"

definition digits_of :: "(string \<times> string) list \<Rightarrow> string \<Rightarrow> string" where
  "digits_of tokens k = (case map_of tokens k of Some n \<Rightarrow> n | None \<Rightarrow> [])"

definition stoich_spec :: "string \<Rightarrow> string option" where
  "stoich_spec t =
     (if stoich_tokens t = [] then None
      else Some (concat (map (\<lambda>k. k @ digits_of (stoich_tokens t) k)
                   (first_seen (map fst (stoich_tokens t))))))"

section \<open>Dictionaries\<close>

lemma map_of_dict_set: "map_of (dict_set d k v) = (map_of d)(k \<mapsto> v)"
  by (induction d) (auto simp: fun_eq_iff)

lemma dict_get_dict_set: "dict_get (dict_set d k v) k' = (if k' = k then v else dict_get d k')"
  by (simp add: dict_get_def map_of_dict_set)

lemma dict_set_absent: "\<not> dict_has d k \<Longrightarrow> dict_set d k v = d @ [(k, v)]"
  by (induction d) (auto simp: dict_has_def)

lemma keys_dict_set: "k \<in> set (map fst d) \<Longrightarrow> map fst (dict_set d k v) = map fst d"
  by (induction d) force+

section \<open>The header scan\<close>

lemma header_line_put:
  "header_line i line st = put (bucket_of i line (map fst (other st))) st"
proof (cases "is_remark_line line")
  case True
  then show ?thesis by (simp add: header_line_def bucket_of_def)
next
  case no_remark: False
  show ?thesis
  proof (cases "canon_of_line line")
    case (Some k)
    then show ?thesis
      using no_remark by (simp add: header_line_def bucket_of_def Let_def)
  next
    case no_canon: None
    show ?thesis
    proof (cases "re_match rx_generic line")
      case (Some m)
      obtain g0 c where m: "m = (g0, c)" by (cases m)
      show ?thesis
        using no_remark no_canon Some m
        by (simp add: header_line_def bucket_of_def Let_def dict_set_absent dict_has_def)
    next
      case None
      then show ?thesis
        using no_remark no_canon
        by (simp add: header_line_def bucket_of_def Let_def dict_set_absent dict_has_def)
    qed
  qed
qed

lemma put_one_part:
  "(out (put b st) = out st \<and> other (put b st) = other st)
   \<or> (out (put b st) = out st \<and> remarks (put b st) = remarks st)
   \<or> (remarks (put b st) = remarks st \<and> other (put b st) = other st)"
  by (cases b) simp_all

lemma header_scan_fold:
  "header_scan mx i ls st =
     foldl (\<lambda>s (j, line). put (bucket_of j line (map fst (other s))) s) st
       (scanned_lines mx i ls)"
  by (induction ls arbitrary: i st) (simp_all add: Let_def header_line_put)

text \<open>
  Claim C2, as the code has it: a header line goes to at most one bucket, the one the
  specification names for it. The turn of the loop for a line puts the line in its
  bucket: the remarks, the canonical field found for it (with the value extracted), the
  entry of \<open>other\<close> under its generic key, the entry \<^verbatim>\<open>LINE_<i>\<close>, or nowhere. Putting
  a line in a bucket changes at most one of the canonical fields, the remarks and
  \<open>other\<close>. The scan as a whole puts each header line it reads, in order, in its
  bucket.
\<close>

theorem header_line_one_bucket:
  "header_line i line st = put (bucket_of i line (map fst (other st))) st
   \<and> ((out (put b st) = out st \<and> other (put b st) = other st)
      \<or> (out (put b st) = out st \<and> remarks (put b st) = remarks st)
      \<or> (remarks (put b st) = remarks st \<and> other (put b st) = other st))
   \<and> header_scan mx j ls st =
       foldl (\<lambda>s (n, l). put (bucket_of n l (map fst (other s))) s) st (scanned_lines mx j ls)"
  using header_line_put [of i line st] put_one_part [of b st] header_scan_fold [of mx j ls st]
  by blast

text \<open>
  Lines in each bucket, and lines that go nowhere: a generic key without a value, a value
  without a generic key, a canonical key without a value or with noise as its value, a
  generic key that is taken.
\<close>

lemma bucket_examples:
  "bucket_of 0 ''a: '' [] = Nowhere \<and> bucket_of 0 '' : x'' [] = Nowhere
   \<and> bucket_of 0 ''AUTHOR:'' [] = Nowhere \<and> bucket_of 0 ''MODEL: 2 B'' [] = Nowhere
   \<and> bucket_of 1 ''note: y'' [''note''] = Nowhere
   \<and> bucket_of 1 ''note: y'' [] = Other_keyed ''note'' ''y''
   \<and> bucket_of 7 ''free text'' [] = Other_line ''LINE_7'' ''free text''
   \<and> bucket_of 7 ''  remark 4 '' [] = Remark ''remark 4''
   \<and> bucket_of 7 ''Author: Bob.'' [] = Field ''AUTHOR'' ''Bob''"
  by code_simp

text \<open>
  Claim C2 as it is written fails: the line \<^verbatim>\<open>AUTHOR:\<close> is not blank, is not
  coordinate-like and is the first line of its file, its key is recognised, and it goes
  to no bucket, since its value is empty. The record has no remark, no canonical field
  and no \<open>other\<close>.
\<close>

theorem bare_key_line_in_no_bucket:
  "py_strip ''AUTHOR:'' \<noteq> []
   \<and> looks_like_coordinate_line ''AUTHOR:'' = False
   \<and> canon_of_line ''AUTHOR:'' = Some ''AUTHOR''
   \<and> parse_ts_metadata [''/casp/T1.txt'' \<mapsto> plain_file bare_key_file] ''/casp/T1.txt''
        MAX_HEADER_LINES
     = Some \<lparr>canon = [(''STOICH'', None), (''SCORE'', None), (''METHOD'', None),
                       (''AUTHOR'', None), (''MODEL'', None), (''FORMAT'', None),
                       (''TITLE'', None), (''COMPND'', None)],
             REMARKS = [], OTHER = None\<rparr>"
  by code_simp

section \<open>The end of the scan, and the last value\<close>

lemma coordinate_line_not_blank: "looks_like_coordinate_line s \<Longrightarrow> py_strip s \<noteq> []"
  by (auto simp: looks_like_coordinate_line_def split: if_splits)

lemma header_scan_stops:
  "looks_like_coordinate_line (rstrip_chars [NL] c) \<Longrightarrow> header_scan mx i (c # rest) st = st"
  by (simp add: Let_def coordinate_line_not_blank)

lemma header_scan_cut:
  "looks_like_coordinate_line (rstrip_chars [NL] c) \<Longrightarrow>
   header_scan mx i (pre @ c # post) st = header_scan mx i pre st"
proof (induction pre arbitrary: i st)
  case Nil
  then show ?case by (simp add: Let_def coordinate_line_not_blank)
next
  case (Cons l pre)
  then show ?case by (simp add: Let_def)
qed

lemma header_scan_append:
  "i + length pre \<le> Suc mx \<Longrightarrow>
   list_all (\<lambda>l. \<not> looks_like_coordinate_line (rstrip_chars [NL] l)) pre \<Longrightarrow>
   header_scan mx i (pre @ rest) st =
     header_scan mx (i + length pre) rest (header_scan mx i pre st)"
proof (induction pre arbitrary: i st)
  case Nil
  then show ?case by simp
next
  case (Cons l pre)
  then show ?case by (simp add: Let_def)
qed

lemma header_scan_take: "header_scan mx i ls st = header_scan mx i (take (Suc mx - i) ls) st"
proof (induction ls arbitrary: i st)
  case Nil
  then show ?case by simp
next
  case (Cons l ls)
  show ?case
  proof (cases "i > mx")
    case True
    then show ?thesis by simp
  next
    case False
    then have "Suc mx - i = Suc (mx - i)" by simp
    moreover have "Suc mx - Suc i = mx - i" by simp
    ultimately show ?thesis
      using False Cons.IH [of "Suc i"] by (simp add: Let_def)
  qed
qed

lemma out_header_line_other_key:
  "\<not> kept_under k line \<Longrightarrow> py_strip line \<noteq> [] \<Longrightarrow> \<not> looks_like_coordinate_line line \<Longrightarrow>
   dict_get (out (header_line i line st)) k = dict_get (out st) k"
  by (auto simp: header_line_def kept_under_def Let_def dict_get_dict_set
      split: option.splits)

lemma out_header_line_kept:
  "kept_under k line \<Longrightarrow>
   header_line i line st = st\<lparr>out := dict_set (out st) k (Some (value_of_line line))\<rparr>"
  by (simp add: header_line_def kept_under_def Let_def)

lemma map_of_keyed: "map_of (map (\<lambda>k. (k, f k)) ks) k = (if k \<in> set ks then Some (f k) else None)"
  by (induction ks) auto

lemma canon_parse_core:
  "dict_get (canon (parse_core mx ls t)) k =
     (if k \<in> set canonical_keys
      then or_none (dict_get (post_score (post_stoich (out (header_scan mx 0 ls init_state)) t)) k)
      else None)"
  by (simp add: parse_core_def Let_def dict_get_def map_of_keyed KEY_ALIASES_def
      canonical_keys_def)

lemma dict_get_post_stoich:
  "k \<noteq> ''STOICH'' \<Longrightarrow> k \<noteq> ''STOICHIOMETRY'' \<Longrightarrow> dict_get (post_stoich d t) k = dict_get d k"
  by (simp add: post_stoich_def Let_def dict_get_dict_set)

lemma post_stoich_found: "truthy (dict_get d ''STOICH'') \<Longrightarrow> post_stoich d t = d"
  by (simp add: post_stoich_def)

lemma dict_get_post_score:
  "dict_get (post_score d) k =
     (if k = ''SCORE'' \<and> truthy (dict_get d ''SCORE'')
      then map_option first_number (dict_get d ''SCORE'')
      else dict_get d k)"
  by (auto simp: post_score_def first_number_def truthy_def dict_get_dict_set
      split: option.splits)

lemma canonical_key_not_long: "k \<in> set canonical_keys \<Longrightarrow> k \<noteq> ''STOICHIOMETRY''"
  by (auto simp: canonical_keys_def)

lemma find_in_set: "List.find P xs = Some x \<Longrightarrow> x \<in> set xs"
  by (induction xs) (auto split: if_splits)

lemma identify_in_keys:
  "identify_canonical_key u l = Some k \<Longrightarrow> k \<in> set canonical_keys"
proof -
  assume a: "identify_canonical_key u l = Some k"
  have keys: "map fst KEY_ALIASES = canonical_keys"
    by (simp add: KEY_ALIASES_def canonical_keys_def)
  from a show ?thesis
    unfolding identify_canonical_key_def
    by (auto split: option.splits if_splits dest!: find_in_set simp: keys [symmetric]
        intro: rev_image_eqI)
qed

lemma rx_run_consumes:
  "(rest, c') \<in> set (rx_run r (s, c)) \<Longrightarrow> length rest + min_len r \<le> length s"
proof (induction r arbitrary: s c rest c')
  case Eps
  then show ?case by simp
next
  case (Cls p)
  then show ?case by (auto split: list.splits if_splits)
next
  case (Rep p lo hi greedy)
  have "length (takeWhile p s) \<le> length s" by (rule length_takeWhile_le)
  with Rep show ?case
    by (auto simp: Let_def split: if_splits option.splits)
next
  case (Seq a b)
  from Seq.prems obtain mid cm where mid: "(mid, cm) \<in> set (rx_run a (s, c))"
    and fin: "(rest, c') \<in> set (rx_run b (mid, cm))"
    by auto
  from Seq.IH(1) [OF mid] Seq.IH(2) [OF fin] show ?case by simp
next
  case (Alt a b)
  then show ?case by fastforce
next
  case (Grp g r)
  then show ?case by fastforce
next
  case Eol
  then show ?case by (auto split: if_splits)
qed

lemma re_match_nonempty:
  assumes "re_match r s = Some (g0, c)" and "0 < min_len r"
  shows "g0 \<noteq> []"
proof -
  from assms(1) obtain rest where "(rest, c) \<in> set (rx_run r (s, []))"
    and g0: "g0 = take (length s - length rest) s"
    by (auto simp: re_match_def split: list.splits)
  from rx_run_consumes [OF this(1)] assms(2) have "length rest < length s" by simp
  with g0 show ?thesis by (cases s) auto
qed

lemma re_search_nonempty:
  "re_search r s = Some (g0, c) \<Longrightarrow> 0 < min_len r \<Longrightarrow> g0 \<noteq> []"
  by (induction s) (auto dest: re_match_nonempty split: option.splits)

lemma first_number_nonempty: "v \<noteq> [] \<Longrightarrow> first_number v \<noteq> []"
  by (auto simp: first_number_def rx_number_def opt_def star_def plus_def
      split: option.splits dest!: re_search_nonempty)

text \<open>
  Claim C4, as the code has it: the header scan ends at a coordinate-like line, and what
  follows it in the file has no part in the scan. Two files that agree up to such a line
  give the same remarks, the same \<open>other\<close> and the same canonical fields, but for
  \<^verbatim>\<open>STOICH\<close>: when the header gave no stoichiometry, the pass after the scan reads the
  whole text of the file, the lines after the coordinate-like line too. When the header
  gave one, the two records are equal.
\<close>

theorem coordinate_line_ends_scan:
  assumes "looks_like_coordinate_line (rstrip_chars [NL] c)"
  shows "header_scan mx i (pre @ c # post) st = header_scan mx i pre st
       \<and> REMARKS (parse_core mx (pre @ c # post) t) = REMARKS (parse_core mx (pre @ c # post') t')
       \<and> OTHER (parse_core mx (pre @ c # post) t) = OTHER (parse_core mx (pre @ c # post') t')
       \<and> (\<forall>k. k \<noteq> ''STOICH'' \<longrightarrow>
             dict_get (canon (parse_core mx (pre @ c # post) t)) k =
             dict_get (canon (parse_core mx (pre @ c # post') t')) k)
       \<and> (truthy (dict_get (out (header_scan mx 0 pre init_state)) ''STOICH'') \<longrightarrow>
             parse_core mx (pre @ c # post) t = parse_core mx (pre @ c # post') t')"
proof -
  have cut: "header_scan mx j (pre @ c # ps) s = header_scan mx j pre s" for j ps s
    using assms by (rule header_scan_cut)
  have other_keys: "dict_get (canon (parse_core mx (pre @ c # post) t)) k =
      dict_get (canon (parse_core mx (pre @ c # post') t')) k" if "k \<noteq> ''STOICH''" for k
    using that
    by (simp add: canon_parse_core cut dict_get_post_score dict_get_post_stoich
        canonical_key_not_long)
  have same: "parse_core mx (pre @ c # post) t = parse_core mx (pre @ c # post') t'"
    if "truthy (dict_get (out (header_scan mx 0 pre init_state)) ''STOICH'')"
    using that by (simp add: parse_core_def cut post_stoich_found)
  have rem: "REMARKS (parse_core mx (pre @ c # post) t) =
      REMARKS (parse_core mx (pre @ c # post') t')"
    by (simp add: parse_core_def Let_def cut)
  have oth: "OTHER (parse_core mx (pre @ c # post) t) =
      OTHER (parse_core mx (pre @ c # post') t')"
    by (simp add: parse_core_def Let_def cut)
  from cut rem oth other_keys same show ?thesis by blast
qed

theorem coordinate_line_ends_scan_witness:
  "looks_like_coordinate_line (rstrip_chars [NL] (atom_line @ [NL]))
   \<and> ''AUTHOR'' \<noteq> ''STOICH''
   \<and> header_scan MAX_HEADER_LINES 0
        (stoich_header_lines @ (atom_line @ [NL]) # [''AUTHOR: Eve'' @ [NL]]) init_state =
       header_scan MAX_HEADER_LINES 0 stoich_header_lines init_state
   \<and> dict_get (canon (parse_core MAX_HEADER_LINES
        (stoich_header_lines @ (atom_line @ [NL]) # [''AUTHOR: Eve'' @ [NL]]) ''X9'')) ''AUTHOR'' =
       Some ''Bob''
   \<and> truthy (dict_get (out (header_scan MAX_HEADER_LINES 0 stoich_header_lines init_state))
        ''STOICH'')
   \<and> parse_core MAX_HEADER_LINES
        (stoich_header_lines @ (atom_line @ [NL]) # [''AUTHOR: Eve'' @ [NL]]) ''X9'' =
       parse_core MAX_HEADER_LINES (stoich_header_lines @ (atom_line @ [NL]) # []) []"
proof -
  have coord: "looks_like_coordinate_line (rstrip_chars [NL] (atom_line @ [NL]))"
    by code_simp
  have found: "truthy (dict_get (out (header_scan MAX_HEADER_LINES 0 stoich_header_lines
      init_state)) ''STOICH'')"
    by code_simp
  have bob: "dict_get (canon (parse_core MAX_HEADER_LINES
      (stoich_header_lines @ (atom_line @ [NL]) # []) [])) ''AUTHOR'' = Some ''Bob''"
    by code_simp
  from coordinate_line_ends_scan [OF coord, where mx = MAX_HEADER_LINES and i = 0
      and pre = stoich_header_lines and post = "[''AUTHOR: Eve'' @ [NL]]" and st = init_state
      and t = "''X9''" and post' = "[]" and t' = "[]"]
  show ?thesis
    using coord found bob by simp
qed

text \<open>
  Claim C4 as it is written fails: a line after the coordinate-like line, one that the
  scan would recognise as \<^verbatim>\<open>STOICH\<close>, changes the canonical field \<^verbatim>\<open>STOICH\<close> of
  the record, through the pass over the whole text.
\<close>

theorem trailer_reaches_stoich:
  "looks_like_coordinate_line atom_line
   \<and> canon_of_line ''STOICH: B5'' = Some ''STOICH''
   \<and> map_option (\<lambda>m. dict_get (canon m) ''STOICH'')
        (parse_ts_metadata [''/casp/T1.txt'' \<mapsto> plain_file (atom_line @ [NL])] ''/casp/T1.txt''
           MAX_HEADER_LINES)
      = Some (Some ''ATOM1A1'')
   \<and> map_option (\<lambda>m. dict_get (canon m) ''STOICH'')
        (parse_ts_metadata [''/casp/T1.txt'' \<mapsto> plain_file trailer_file] ''/casp/T1.txt''
           MAX_HEADER_LINES)
      = Some (Some ''ATOM1A1B5'')"
  by code_simp

lemma kept_in_keys: "kept_under k line \<Longrightarrow> k \<in> set canonical_keys"
  by (auto simp: kept_under_def canon_of_line_def dest: identify_in_keys)

lemma header_scan_ends: "scan_ends mx i ls \<Longrightarrow> header_scan mx i ls st = st"
  by (cases ls) (auto simp: scan_ends_def Let_def coordinate_line_not_blank)

lemma out_header_scan_unkept_then_end:
  "list_all (\<lambda>l. \<not> kept_under k (rstrip_chars [NL] l)) mid \<Longrightarrow>
   scan_ends mx (i + length mid) rest \<Longrightarrow>
   dict_get (out (header_scan mx i (mid @ rest) st)) k = dict_get (out st) k"
proof (induction mid arbitrary: i st)
  case Nil
  then show ?case by (simp add: header_scan_ends)
next
  case (Cons l mid)
  from Cons.prems(2) have ends: "scan_ends mx (Suc i + length mid) rest" by simp
  from Cons.prems(1) have unkept: "list_all (\<lambda>l. \<not> kept_under k (rstrip_chars [NL] l)) mid"
    and here: "\<not> kept_under k (rstrip_chars [NL] l)"
    by simp_all
  show ?case
    using Cons.IH [OF unkept ends] here
    by (simp add: Let_def out_header_line_other_key)
qed

lemma out_scan_last_reached:
  assumes reach: "length pre \<le> mx"
      and clear: "list_all (\<lambda>l. \<not> looks_like_coordinate_line (rstrip_chars [NL] l)) pre"
      and kept: "kept_under k (rstrip_chars [NL] raw)"
      and later: "list_all (\<lambda>l. \<not> kept_under k (rstrip_chars [NL] l)) mid"
      and ends: "scan_ends mx (Suc (length pre + length mid)) rest"
  shows "dict_get (out (header_scan mx 0 (pre @ raw # mid @ rest) init_state)) k =
         Some (value_of_line (rstrip_chars [NL] raw))"
proof -
  define st1 where "st1 = header_scan mx 0 pre init_state"
  define line where "line = rstrip_chars [NL] raw"
  have "header_scan mx 0 (pre @ raw # mid @ rest) init_state =
      header_scan mx (length pre) (raw # mid @ rest) st1"
    using reach clear by (simp add: header_scan_append st1_def)
  also have "\<dots> =
      header_scan mx (Suc (length pre)) (mid @ rest) (header_line (length pre) line st1)"
    using reach kept by (simp add: Let_def kept_under_def line_def)
  finally have "dict_get (out (header_scan mx 0 (pre @ raw # mid @ rest) init_state)) k =
      dict_get (out (header_line (length pre) line st1)) k"
    using later ends by (simp add: out_header_scan_unkept_then_end)
  also have "\<dots> = Some (value_of_line line)"
    using kept by (simp add: out_header_line_kept line_def dict_get_dict_set)
  finally show ?thesis by (simp add: line_def)
qed

lemma canon_last_reached:
  assumes "length pre \<le> mx"
      and "list_all (\<lambda>l. \<not> looks_like_coordinate_line (rstrip_chars [NL] l)) pre"
      and "kept_under k (rstrip_chars [NL] raw)"
      and "list_all (\<lambda>l. \<not> kept_under k (rstrip_chars [NL] l)) mid"
      and "scan_ends mx (Suc (length pre + length mid)) rest"
  shows "dict_get (canon (parse_core mx (pre @ raw # mid @ rest) t)) k =
         Some (if k = ''SCORE'' then first_number (value_of_line (rstrip_chars [NL] raw))
               else value_of_line (rstrip_chars [NL] raw))"
proof -
  define d where "d = out (header_scan mx 0 (pre @ raw # mid @ rest) init_state)"
  define v where "v = value_of_line (rstrip_chars [NL] raw)"
  have dk: "dict_get d k = Some v"
    unfolding d_def v_def using assms by (rule out_scan_last_reached)
  have v: "v \<noteq> []"
    using assms(3) by (simp add: kept_under_def v_def)
  have key: "k \<in> set canonical_keys"
    using assms(3) by (rule kept_in_keys)
  have rec: "dict_get (canon (parse_core mx (pre @ raw # mid @ rest) t)) k =
      or_none (dict_get (post_score (post_stoich d t)) k)"
    using key by (simp add: canon_parse_core d_def)
  show ?thesis
  proof (cases "k = ''STOICH''")
    case True
    then have "post_stoich d t = d"
      using dk v by (simp add: post_stoich_found truthy_def)
    then have "or_none (dict_get (post_score (post_stoich d t)) k) = Some v"
      using True dk v by (simp add: dict_get_post_score or_none_def truthy_def)
    with rec show ?thesis
      using True by (simp add: v_def)
  next
    case False
    then have "dict_get (post_stoich d t) k = Some v"
      using key dk by (simp add: dict_get_post_stoich canonical_key_not_long)
    moreover have "dict_get (post_stoich d t) ''SCORE'' = dict_get d ''SCORE''"
      by (simp add: dict_get_post_stoich)
    ultimately show ?thesis
      using dk v first_number_nonempty [OF v]
      by (auto simp: rec dict_get_post_score or_none_def truthy_def v_def)
  qed
qed

text \<open>
  Claim C9, as the code has it: take a header line that the scan reaches (it stands
  within the cap, and no coordinate-like line stands before it) and that stores its
  value under the canonical key \<open>k\<close>, and let no line that the scan reaches after it
  store a value under \<open>k\<close>: these are the lines \<open>mid\<close>, up to where the scan is
  over, at the end of the file, at the cap or at a coordinate-like line. Then the record
  holds the value of that line under \<open>k\<close>, whatever was stored before and whatever
  stands in the lines \<open>rest\<close> that the scan does not reach; for \<^verbatim>\<open>SCORE\<close> it is
  reduced to its first number. Lines recognised for \<open>k\<close> whose value is empty or
  dropped as noise do not count.
\<close>

theorem last_kept_value_wins:
  assumes "length pre \<le> mx"
      and "list_all (\<lambda>l. \<not> looks_like_coordinate_line (rstrip_chars [NL] l)) pre"
      and "kept_under k (rstrip_chars [NL] raw)"
      and "list_all (\<lambda>l. \<not> kept_under k (rstrip_chars [NL] l)) mid"
      and "scan_ends mx (Suc (length pre + length mid)) rest"
  shows "dict_get (canon (parse_core mx (pre @ raw # mid @ rest) t)) k =
         Some (if k = ''SCORE'' then first_number (value_of_line (rstrip_chars [NL] raw))
               else value_of_line (rstrip_chars [NL] raw))"
  using assms by (rule canon_last_reached)

theorem last_kept_value_wins_witness:
  "length two_author_lines \<le> MAX_HEADER_LINES
   \<and> list_all (\<lambda>l. \<not> looks_like_coordinate_line (rstrip_chars [NL] l)) two_author_lines
   \<and> kept_under ''AUTHOR'' (rstrip_chars [NL] alice_line)
   \<and> list_all (\<lambda>l. \<not> kept_under ''AUTHOR'' (rstrip_chars [NL] l)) lines_after_alice
   \<and> scan_ends MAX_HEADER_LINES (Suc (length two_author_lines + length lines_after_alice))
        lines_from_atom
   \<and> list_ex (\<lambda>l. kept_under ''AUTHOR'' (rstrip_chars [NL] l)) lines_from_atom
   \<and> dict_get (canon (parse_core MAX_HEADER_LINES
        (two_author_lines @ alice_line # lines_after_alice @ lines_from_atom) []))
        ''AUTHOR'' = Some ''Alice''
   \<and> length two_author_lines \<le> 2
   \<and> scan_ends 2 (Suc (length two_author_lines + length ([] :: string list))) eve_lines
   \<and> list_ex (\<lambda>l. kept_under ''AUTHOR'' (rstrip_chars [NL] l)) eve_lines
   \<and> dict_get (canon (parse_core 2 (two_author_lines @ alice_line # [] @ eve_lines) []))
        ''AUTHOR'' = Some ''Alice''"
proof -
  have reach: "length two_author_lines \<le> MAX_HEADER_LINES"
    by code_simp
  have clear: "list_all (\<lambda>l. \<not> looks_like_coordinate_line (rstrip_chars [NL] l))
      two_author_lines"
    by code_simp
  have kept: "kept_under ''AUTHOR'' (rstrip_chars [NL] alice_line)"
    by code_simp
  have later: "list_all (\<lambda>l. \<not> kept_under ''AUTHOR'' (rstrip_chars [NL] l)) lines_after_alice"
    by code_simp
  have ends: "scan_ends MAX_HEADER_LINES
      (Suc (length two_author_lines + length lines_after_alice)) lines_from_atom"
    by code_simp
  have eve: "list_ex (\<lambda>l. kept_under ''AUTHOR'' (rstrip_chars [NL] l)) lines_from_atom"
    by code_simp
  have reach2: "length two_author_lines \<le> 2"
    by code_simp
  have none: "list_all (\<lambda>l. \<not> kept_under ''AUTHOR'' (rstrip_chars [NL] l)) []"
    by simp
  have ends2: "scan_ends 2 (Suc (length two_author_lines + length ([] :: string list)))
      eve_lines"
    by code_simp
  have eve2: "list_ex (\<lambda>l. kept_under ''AUTHOR'' (rstrip_chars [NL] l)) eve_lines"
    by code_simp
  have val: "value_of_line (rstrip_chars [NL] alice_line) = ''Alice''"
    by code_simp
  from last_kept_value_wins [OF reach clear kept later ends, of "[]"]
    last_kept_value_wins [OF reach2 clear kept none ends2, of "[]"]
  show ?thesis
    using reach clear kept later ends eve reach2 ends2 eve2 by (simp add: val)
qed

text \<open>
  Claim C9 as it is written fails: the key \<^verbatim>\<open>MODEL\<close> is recognised on both lines, the
  value of the last one is \<^verbatim>\<open>2 B\<close>, which is dropped as noise, and the record keeps
  the value of the first line.
\<close>

theorem last_recognised_line_may_lose:
  "canon_of_line ''MODEL: first'' = Some ''MODEL''
   \<and> canon_of_line ''MODEL: 2 B'' = Some ''MODEL''
   \<and> extract_value_from_line ''MODEL: 2 B'' = ''2 B''
   \<and> map_option (\<lambda>m. dict_get (canon m) ''MODEL'')
        (parse_ts_metadata
           [''/casp/T1.txt'' \<mapsto> plain_file (''MODEL: first'' @ [NL] @ ''MODEL: 2 B'' @ [NL])]
           ''/casp/T1.txt'' MAX_HEADER_LINES)
      = Some (Some ''first'')"
  by code_simp

text \<open>
  Claim C5, as the code has it: take a file in which the scan reaches the line
  \<^verbatim>\<open>SCORE: GDT 0.8231 (model 1)\<close> and no line that it reaches afterwards stores a
  score. Then the field \<^verbatim>\<open>SCORE\<close> of the record is \<^verbatim>\<open>0.8231\<close>: the value after
  the colon is \<^verbatim>\<open>GDT 0.8231 (model 1)\<close>, the alias \<^verbatim>\<open>GDT\<close> at its head is
  stripped, and the value is reduced to its first number. What stands before the line
  in the header, and what stands after the end of the scan, does not matter.
\<close>

theorem score_line_gives_number:
  assumes "fs p = Some (File (pre @ raw # mid @ rest) t)" and "p \<noteq> []"
      and "rstrip_chars [NL] raw = score_line"
      and "length pre \<le> mx"
      and "list_all (\<lambda>l. \<not> looks_like_coordinate_line (rstrip_chars [NL] l)) pre"
      and "list_all (\<lambda>l. \<not> kept_under ''SCORE'' (rstrip_chars [NL] l)) mid"
      and "scan_ends mx (Suc (length pre + length mid)) rest"
  shows "extract_value_from_line score_line = ''GDT 0.8231 (model 1)''
       \<and> value_of_line score_line = ''0.8231 (model 1)''
       \<and> map_option (\<lambda>m. dict_get (canon m) ''SCORE'') (parse_ts_metadata fs p mx) =
           Some (Some ''0.8231'')"
proof -
  have extracted: "extract_value_from_line score_line = ''GDT 0.8231 (model 1)''"
    by code_simp
  have stripped: "value_of_line score_line = ''0.8231 (model 1)''"
    by code_simp
  have number: "first_number ''0.8231 (model 1)'' = ''0.8231''"
    by code_simp
  have "kept_under ''SCORE'' score_line"
    by code_simp
  then have kept: "kept_under ''SCORE'' (rstrip_chars [NL] raw)"
    using assms(3) by simp
  have "dict_get (canon (parse_core mx (pre @ raw # mid @ rest) t)) ''SCORE'' = Some ''0.8231''"
    using canon_last_reached [OF assms(4) assms(5) kept assms(6) assms(7), of t]
    by (simp add: assms(3) stripped number)
  then have "map_option (\<lambda>m. dict_get (canon m) ''SCORE'') (parse_ts_metadata fs p mx) =
      Some (Some ''0.8231'')"
    using assms(1) assms(2)
    by (simp add: parse_ts_metadata_def path_exists_def iter_lines_def collect_all_text_def)
  with extracted stripped show ?thesis by simp
qed

theorem score_line_gives_number_witness:
  "[''/casp/T1.txt'' \<mapsto> plain_file score_file_with_trailer] ''/casp/T1.txt'' =
     Some (File (score_header_before @ score_file # [] @ [atom_line @ [NL], ''TM: 7'' @ [NL]])
             score_file_with_trailer)
   \<and> ''/casp/T1.txt'' \<noteq> []
   \<and> rstrip_chars [NL] score_file = score_line
   \<and> length score_header_before \<le> MAX_HEADER_LINES
   \<and> list_all (\<lambda>l. \<not> looks_like_coordinate_line (rstrip_chars [NL] l)) score_header_before
   \<and> scan_ends MAX_HEADER_LINES (Suc (length score_header_before + length ([] :: string list)))
        [atom_line @ [NL], ''TM: 7'' @ [NL]]
   \<and> map_option (\<lambda>m. dict_get (canon m) ''SCORE'')
        (parse_ts_metadata [''/casp/T1.txt'' \<mapsto> plain_file score_file_with_trailer]
           ''/casp/T1.txt'' MAX_HEADER_LINES) = Some (Some ''0.8231'')"
proof -
  have "py_lines score_file_with_trailer =
      score_header_before @ score_file # [] @ [atom_line @ [NL], ''TM: 7'' @ [NL]]"
    by code_simp
  then have stored: "[''/casp/T1.txt'' \<mapsto> plain_file score_file_with_trailer] ''/casp/T1.txt'' =
      Some (File (score_header_before @ score_file # [] @ [atom_line @ [NL], ''TM: 7'' @ [NL]])
              score_file_with_trailer)"
    by (simp add: plain_file_def)
  have path_ok: "''/casp/T1.txt'' \<noteq> []"
    by simp
  have at_line: "rstrip_chars [NL] score_file = score_line"
    by code_simp
  have reach: "length score_header_before \<le> MAX_HEADER_LINES"
    by code_simp
  have clear: "list_all (\<lambda>l. \<not> looks_like_coordinate_line (rstrip_chars [NL] l))
      score_header_before"
    by code_simp
  have none: "list_all (\<lambda>l. \<not> kept_under ''SCORE'' (rstrip_chars [NL] l)) []"
    by simp
  have ends: "scan_ends MAX_HEADER_LINES
      (Suc (length score_header_before + length ([] :: string list)))
      [atom_line @ [NL], ''TM: 7'' @ [NL]]"
    by code_simp
  from score_line_gives_number [where fs = "[''/casp/T1.txt'' \<mapsto> plain_file score_file_with_trailer]"
      and p = "''/casp/T1.txt''" and pre = score_header_before and raw = score_file
      and mid = "[]" and rest = "[atom_line @ [NL], ''TM: 7'' @ [NL]]"
      and t = score_file_with_trailer and mx = MAX_HEADER_LINES,
      OF stored path_ok at_line reach clear none ends]
  show ?thesis
    using stored at_line reach clear ends by simp
qed

text \<open>
  Claim C5 as it is written fails: in a file whose header holds the line, a later header
  line that stores a score takes the field. \<^verbatim>\<open>TM: 7\<close> is recognised as a score, and
  so is \<^verbatim>\<open>TREATMENT: dry\<close>, which holds the alias \<^verbatim>\<open>TM\<close>.
\<close>

theorem later_score_line_takes_field:
  "canon_of_line ''TM: 7'' = Some ''SCORE''
   \<and> canon_of_line ''TREATMENT: dry'' = Some ''SCORE''
   \<and> map_option (\<lambda>m. dict_get (canon m) ''SCORE'')
        (parse_ts_metadata [''/casp/T1.txt'' \<mapsto> plain_file later_score_file] ''/casp/T1.txt''
           MAX_HEADER_LINES) = Some (Some ''7'')
   \<and> map_option (\<lambda>m. dict_get (canon m) ''SCORE'')
        (parse_ts_metadata [''/casp/T1.txt'' \<mapsto> plain_file treatment_file] ''/casp/T1.txt''
           MAX_HEADER_LINES) = Some (Some ''dry'')"
  by code_simp

lemma py_lines_blank: "lines_acc [] (replicate n NL @ s) = replicate n [NL] @ lines_acc [] s"
  by (induction n) simp_all

lemma blank_lines_clear:
  "list_all (\<lambda>l. \<not> looks_like_coordinate_line (rstrip_chars [NL] l)) (replicate n [NL])"
proof -
  have "rstrip_chars [NL] [NL] = []" by (simp add: rstrip_chars_def)
  moreover have "\<not> looks_like_coordinate_line []" by (simp add: looks_like_coordinate_line_def)
  ultimately show ?thesis by (simp add: list_all_iff)
qed

lemma bob_line_kept: "kept_under ''AUTHOR'' (rstrip_chars [NL] bob_line)"
  by code_simp

lemma bob_line_value: "value_of_line (rstrip_chars [NL] bob_line) = ''Bob''"
  by code_simp

lemma line_at_cap:
  "dict_get (canon (parse_core mx (replicate mx [NL] @ [bob_line]) t)) ''AUTHOR'' = Some ''Bob''"
proof -
  have ends: "scan_ends mx (Suc (length (replicate mx [NL]) + length ([] :: string list))) []"
    by (simp add: scan_ends_def)
  from canon_last_reached [of "replicate mx [NL]" mx "''AUTHOR''" bob_line "[]" "[]" t]
  show ?thesis
    using ends by (simp add: blank_lines_clear bob_line_kept bob_line_value)
qed

text \<open>
  Claim C3 fails on the code: the loop ends at an index greater than
  \<open>max_header_lines\<close>, so the line with the index \<open>max_header_lines\<close> itself is
  still read. In a file of 2000 empty lines and then the line \<^verbatim>\<open>AUTHOR: Bob\<close>, which
  has the index 2000, the scan with the default cap of 2000 sets the field
  \<^verbatim>\<open>AUTHOR\<close>.
\<close>

theorem line_at_cap_is_read:
  "map_option (\<lambda>m. dict_get (canon m) ''AUTHOR'')
     (parse_ts_metadata [''/casp/T1.txt'' \<mapsto> plain_file capped_file] ''/casp/T1.txt''
        MAX_HEADER_LINES)
   = Some (Some ''Bob'')"
proof -
  have "lines_acc [] bob_line = [bob_line]"
    by code_simp
  then have "py_lines capped_file = replicate MAX_HEADER_LINES [NL] @ [bob_line]"
    by (simp add: capped_file_def py_lines_def py_lines_blank)
  then show ?thesis
    by (simp add: parse_ts_metadata_def path_exists_def iter_lines_def plain_file_def line_at_cap)
qed

text \<open>What the loop does ensure: no line beyond the first \<open>max_header_lines + 1\<close> is read.\<close>

lemma header_scan_reads_to_cap:
  "header_scan mx 0 ls st = header_scan mx 0 (take (Suc mx) ls) st"
  using header_scan_take [of mx 0 ls st] by simp

section \<open>The stoichiometry pass\<close>

lemma rx_run_Seq_iff:
  "(rest, c') \<in> set (rx_run (Seq a b) st) \<longleftrightarrow>
   (\<exists>mid \<in> set (rx_run a st). (rest, c') \<in> set (rx_run b mid))"
  by auto

lemma rx_run_Rep_elem:
  assumes "(rest, c') \<in> set (rx_run (Rep p lo hi g) (s, c))"
  shows "c' = c \<and> (\<exists>k. lo \<le> k \<and> k \<le> length (takeWhile p s) \<and> rest = drop k s)"
proof -
  define m where "m = (case hi of None \<Rightarrow> length (takeWhile p s)
                        | Some h \<Rightarrow> min h (length (takeWhile p s)))"
  define ks where "ks = (if lo \<le> m then [lo ..< Suc m] else [])"
  have m: "m \<le> length (takeWhile p s)"
    by (simp add: m_def split: option.splits)
  from assms have "(rest, c') \<in> (\<lambda>k. (drop k s, c)) ` set ks"
    by (cases g) (simp_all add: Let_def m_def ks_def)
  then obtain k where k: "k \<in> set ks" and r: "rest = drop k s" and c: "c' = c"
    by auto
  from k have "lo \<le> k \<and> k \<le> m"
    by (auto simp: ks_def split: if_splits)
  with m r c show ?thesis by auto
qed

lemma take_within_run: "k \<le> length (takeWhile p s) \<Longrightarrow> list_all p (take k s)"
proof (induction s arbitrary: k)
  case Nil
  then show ?case by simp
next
  case (Cons x xs)
  then show ?case by (cases k) (auto split: if_splits)
qed

lemma rx_run_Grp_Rep_elem:
  assumes "(rest, c') \<in> set (rx_run (Grp g (Rep p lo hi gr)) (s, c))"
  shows "\<exists>k. lo \<le> k \<and> k \<le> length (takeWhile p s) \<and> rest = drop k s \<and> c' = (g, take k s) # c"
proof -
  from assms obtain c0 where mem: "(rest, c0) \<in> set (rx_run (Rep p lo hi gr) (s, c))"
    and c': "c' = (g, take (length s - length rest) s) # c0"
    by auto
  from rx_run_Rep_elem [OF mem] obtain k where k: "lo \<le> k" "k \<le> length (takeWhile p s)"
    "rest = drop k s" and c0: "c0 = c"
    by auto
  have "k \<le> length s" using k(2) length_takeWhile_le [of p s] by simp
  then have "length s - length rest = k" using k(3) by simp
  with k c' c0 show ?thesis by auto
qed

lemma rx_stoich_elem:
  assumes "(rest, c) \<in> set (rx_run rx_stoich (s, c0))"
  shows "\<exists>l d. c = (2, d) # (1, l) # c0 \<and> l \<noteq> [] \<and> list_all is_alpha l \<and>
               d \<noteq> [] \<and> list_all is_digit d \<and> (\<exists>r. s = l @ r)"
proof -
  from assms obtain m1 m2 m3 m4 m5 where
    a1: "m1 \<in> set (rx_run (Grp 1 (plus is_alpha)) (s, c0))" and
    a2: "m2 \<in> set (rx_run (star is_space) m1)" and
    a3: "m3 \<in> set (rx_run (opt (one_of '':='')) m2)" and
    a4: "m4 \<in> set (rx_run (star is_space) m3)" and
    a5: "m5 \<in> set (rx_run (Grp 2 (plus is_digit)) m4)" and
    a6: "(rest, c) \<in> set (rx_run Eps m5)"
    unfolding rx_stoich_def seqs.simps rx_run_Seq_iff by blast
  obtain s1 c1 where m1: "m1 = (s1, c1)" by (cases m1)
  obtain s2 c2 where m2: "m2 = (s2, c2)" by (cases m2)
  obtain s3 c3 where m3: "m3 = (s3, c3)" by (cases m3)
  obtain s4 c4 where m4: "m4 = (s4, c4)" by (cases m4)
  from a1 [unfolded m1 plus_def] have
    "\<exists>k. 1 \<le> k \<and> k \<le> length (takeWhile is_alpha s) \<and> s1 = drop k s \<and> c1 = (1, take k s) # c0"
    by (rule rx_run_Grp_Rep_elem)
  then obtain k where k: "1 \<le> k" "k \<le> length (takeWhile is_alpha s)"
    and s1: "s1 = drop k s" and c1: "c1 = (1, take k s) # c0"
    by blast
  from a2 [unfolded m1 m2 star_def] have c2: "c2 = c1"
    by (rule rx_run_Rep_elem [THEN conjunct1])
  from a3 [unfolded m2 m3 opt_def] have c3: "c3 = c2"
    by (rule rx_run_Rep_elem [THEN conjunct1])
  from a4 [unfolded m3 m4 star_def] have c4: "c4 = c3"
    by (rule rx_run_Rep_elem [THEN conjunct1])
  obtain s5 c5 where m5': "m5 = (s5, c5)" by (cases m5)
  from a5 [unfolded m4 m5' plus_def] have
    "\<exists>j. 1 \<le> j \<and> j \<le> length (takeWhile is_digit s4) \<and> s5 = drop j s4 \<and>
         c5 = (2, take j s4) # c4"
    by (rule rx_run_Grp_Rep_elem)
  then obtain j where j: "1 \<le> j" "j \<le> length (takeWhile is_digit s4)"
    and m5: "m5 = (drop j s4, (2, take j s4) # c4)"
    using m5' by blast
  from a6 m5 have c: "c = (2, take j s4) # c4" by simp
  have "k \<le> length s" using k(2) length_takeWhile_le [of is_alpha s] by simp
  with k(1) have l: "take k s \<noteq> []" by auto
  have "j \<le> length s4" using j(2) length_takeWhile_le [of is_digit s4] by simp
  with j(1) have d: "take j s4 \<noteq> []" by auto
  have "s = take k s @ drop k s" by simp
  with c c1 c2 c3 c4 l d take_within_run [OF k(2)] take_within_run [OF j(2)]
  show ?thesis by blast
qed

lemma re_match_elem:
  "re_match r s = Some (g0, c) \<Longrightarrow> \<exists>rest. (rest, c) \<in> set (rx_run r (s, []))"
  by (auto simp: re_match_def split: list.splits)

lemma findall_from_elem:
  "m \<in> set (findall_from r skip s) \<Longrightarrow> \<exists>s'. re_match r s' = Some m"
  by (induction s arbitrary: skip) (auto split: if_splits option.splits)

lemma stoich_token_shape:
  assumes "(k, n) \<in> set (stoich_tokens t)"
  shows "k \<noteq> [] \<and> list_all is_alpha k \<and> n \<noteq> [] \<and> list_all is_digit n"
proof -
  from assms obtain g0 c where mem: "(g0, c) \<in> set (re_findall rx_stoich t)"
    and k: "k = group c 1" and n: "n = group c 2"
    by (auto simp: stoich_tokens_def)
  from mem obtain s' where "re_match rx_stoich s' = Some (g0, c)"
    unfolding re_findall_def by (auto dest!: findall_from_elem)
  then obtain rest where "(rest, c) \<in> set (rx_run rx_stoich (s', []))"
    by (auto dest!: re_match_elem)
  from rx_stoich_elem [OF this] obtain l d where "c = [(2, d), (1, l)]"
    and "l \<noteq> []" "list_all is_alpha l" "d \<noteq> []" "list_all is_digit d"
    by auto
  with k n show ?thesis by (simp add: group_def)
qed

lemma alpha_not_space: "is_alpha x \<Longrightarrow> x \<notin> set whitespace"
  by (auto simp: is_alpha_def whitespace_def uppercase_def lowercase_def)

lemma dropWhile_head: "xs = [] \<or> \<not> P (hd xs) \<Longrightarrow> dropWhile P xs = xs"
  by (cases xs) auto

lemma py_strip_alpha: "list_all is_alpha k \<Longrightarrow> py_strip k = k"
proof -
  assume a: "list_all is_alpha k"
  have front: "k = [] \<or> hd k \<notin> set whitespace"
    using a by (cases k) (auto dest: alpha_not_space)
  have rear: "rev k = [] \<or> hd (rev k) \<notin> set whitespace"
  proof (cases "k = []")
    case True
    then show ?thesis by simp
  next
    case False
    then have "hd (rev k) = last k" by (simp add: hd_rev)
    moreover have "last k \<in> set k" using False by simp
    ultimately show ?thesis using a by (auto simp: list_all_iff dest: alpha_not_space)
  qed
  show ?thesis
    using front rear by (simp add: py_strip_def lstrip_chars_def rstrip_chars_def dropWhile_head)
qed

lemma first_seen_Cons: "first_seen (k # ks) = k # filter (\<lambda>x. x \<noteq> k) (first_seen ks)"
proof -
  have "remdups (xs @ [k]) = filter (\<lambda>x. x \<noteq> k) (remdups xs) @ [k]" for xs
    by (induction xs) auto
  then show ?thesis by (simp add: first_seen_def rev_filter)
qed

lemma set_first_seen: "set (first_seen ks) = set ks"
  by (simp add: first_seen_def)

lemma stoich_parts_first_seen:
  "list_all (\<lambda>(k, n). py_strip k = k) tokens \<Longrightarrow>
   stoich_parts seen tokens =
     map (\<lambda>k. k @ digits_of tokens k)
       (filter (\<lambda>k. k \<notin> set seen) (first_seen (map fst tokens)))"
proof (induction tokens arbitrary: seen)
  case Nil
  then show ?case by (simp add: first_seen_def)
next
  case (Cons tok tokens)
  obtain k n where tok: "tok = (k, n)" by (cases tok)
  from Cons.prems tok have strip: "py_strip k = k"
    and rest: "list_all (\<lambda>(k, n). py_strip k = k) tokens"
    by simp_all
  have same: "map (\<lambda>x. x @ digits_of ((k, n) # tokens) x) (filter P (filter (\<lambda>x. x \<noteq> k) xs)) =
      map (\<lambda>x. x @ digits_of tokens x) (filter P (filter (\<lambda>x. x \<noteq> k) xs))" for P xs
    by (induction xs) (auto simp: digits_of_def)
  show ?case
  proof (cases "k \<in> set seen")
    case True
    have "filter (\<lambda>x. x \<notin> set seen) (filter (\<lambda>x. x \<noteq> k) xs) = filter (\<lambda>x. x \<notin> set seen) xs"
      for xs
      using True by (induction xs) auto
    with True show ?thesis
      using Cons.IH [OF rest, of seen] same [of "\<lambda>x. x \<notin> set seen"]
      by (simp add: tok strip first_seen_Cons Let_def) metis
  next
    case False
    have "filter (\<lambda>x. x \<notin> set (seen @ [k])) xs =
        filter (\<lambda>x. x \<notin> set seen) (filter (\<lambda>x. x \<noteq> k) xs)" for xs
      by (induction xs) auto
    with False show ?thesis
      using Cons.IH [OF rest, of "seen @ [k]"] same [of "\<lambda>x. x \<notin> set seen"]
      by (simp add: tok strip first_seen_Cons Let_def digits_of_def)
  qed
qed

lemma digit_class:
  "is_digit x \<Longrightarrow> \<not> is_alpha x \<and> \<not> is_space x \<and> \<not> one_of '':='' x"
  by (auto simp: is_digit_def is_alpha_def is_space_def one_of_def whitespace_def
      uppercase_def lowercase_def)

lemma re_match_run: "re_match r s \<noteq> None \<longleftrightarrow> rx_run r (s, []) \<noteq> []"
  by (auto simp: re_match_def split: list.splits)

lemma rx_compact_start:
  assumes "rx_run rx_compact (s, []) \<noteq> []"
  shows "\<exists>a d rest. s = a # d # rest \<and> is_alpha a \<and> is_digit d"
proof (cases s)
  case Nil
  with assms show ?thesis by (simp add: rx_compact_def)
next
  case (Cons a xs)
  with assms have a: "is_alpha a" and run: "rx_run (plus is_digit) (xs, []) \<noteq> []"
    by (auto simp: rx_compact_def split: if_splits)
  from run have "1 \<le> length (takeWhile is_digit xs)"
    by (auto simp: plus_def Let_def split: if_splits)
  then obtain d rest where "xs = d # rest" "is_digit d"
    by (cases xs) (auto split: if_splits)
  with Cons a show ?thesis by blast
qed

lemma rx_stoich_start:
  assumes "is_alpha a" and "is_digit d"
  shows "rx_run rx_stoich (a # d # rest, []) \<noteq> []"
proof -
  from digit_class [OF assms(2)] have d: "\<not> is_alpha d" "\<not> is_space d" "\<not> one_of '':='' d"
    by simp_all
  show ?thesis
    using assms d
    by (simp add: rx_stoich_def plus_def star_def opt_def Let_def)
qed

lemma compact_needs_stoich: "re_match rx_compact s \<noteq> None \<Longrightarrow> re_match rx_stoich s \<noteq> None"
  unfolding re_match_run using rx_compact_start rx_stoich_start by blast

lemma findall_none:
  "(\<And>s'. re_match r2 s' \<noteq> None \<Longrightarrow> re_match r1 s' \<noteq> None) \<Longrightarrow>
   findall_from r1 0 s = [] \<Longrightarrow> findall_from r2 0 s = []"
proof (induction s)
  case Nil
  then show ?case by simp
next
  case (Cons x xs)
  from Cons.prems(2) have no: "re_match r1 (x # xs) = None" and rest: "findall_from r1 0 xs = []"
    by (auto split: option.splits)
  from no Cons.prems(1) have "re_match r2 (x # xs) = None" by blast
  with Cons.IH [OF Cons.prems(1) rest] show ?case by simp
qed

lemma compact_fallback_dead: "re_findall rx_stoich t = [] \<Longrightarrow> re_findall rx_compact t = []"
  unfolding re_findall_def using compact_needs_stoich by (rule findall_none)

lemma stoich_string_nonempty:
  assumes "stoich_tokens t \<noteq> []"
  shows "concat (map (\<lambda>k. k @ digits_of (stoich_tokens t) k)
           (first_seen (map fst (stoich_tokens t)))) \<noteq> []"
proof -
  from assms obtain k n where mem: "(k, n) \<in> set (stoich_tokens t)"
    by (cases "stoich_tokens t") auto
  then have "k \<in> set (first_seen (map fst (stoich_tokens t)))"
    by (force simp: set_first_seen)
  moreover have "k \<noteq> []" using stoich_token_shape [OF mem] by simp
  ultimately show ?thesis by auto
qed

lemma find_stoich_unfold:
  "find_stoich_tokens_in_text t =
     (if t = [] then None
      else if stoich_tokens t \<noteq> [] then
        (if stoich_parts [] (stoich_tokens t) \<noteq> []
         then Some (concat (stoich_parts [] (stoich_tokens t))) else None)
      else if re_findall rx_compact t \<noteq> []
        then Some (concat (map (\<lambda>(g0, c). group c 1) (re_findall rx_compact t)))
        else None)"
  by (simp add: find_stoich_tokens_in_text_def stoich_tokens_def Let_def)

lemma find_stoich_is_spec: "find_stoich_tokens_in_text t = stoich_spec t"
proof (cases "stoich_tokens t = []")
  case True
  then have "re_findall rx_stoich t = []" by (simp add: stoich_tokens_def)
  then have "re_findall rx_compact t = []" by (rule compact_fallback_dead)
  with True show ?thesis
    by (simp add: find_stoich_unfold stoich_spec_def)
next
  case False
  have strip: "list_all (\<lambda>(k, n). py_strip k = k) (stoich_tokens t)"
    using stoich_token_shape [of _ _ t] by (auto simp: list_all_iff intro: py_strip_alpha)
  have parts: "stoich_parts [] (stoich_tokens t) =
      map (\<lambda>k. k @ digits_of (stoich_tokens t) k) (first_seen (map fst (stoich_tokens t)))"
    using stoich_parts_first_seen [OF strip, of "[]"] by simp
  have keys: "first_seen (map fst (stoich_tokens t)) \<noteq> []"
    using False set_first_seen [of "map fst (stoich_tokens t)"] by (cases "stoich_tokens t") auto
  have nonempty: "t \<noteq> []"
    using False by (auto simp: stoich_tokens_def re_findall_def)
  show ?thesis
    using False nonempty keys
    by (simp add: find_stoich_unfold stoich_spec_def parts)
qed

lemma stoich_spec_truthy: "truthy (stoich_spec t) \<longleftrightarrow> stoich_spec t \<noteq> None"
  using stoich_string_nonempty [of t] by (auto simp: stoich_spec_def truthy_def)

lemma keys_header_line:
  "map fst (out st) = canonical_keys \<Longrightarrow> map fst (out (header_line i line st)) = canonical_keys"
  by (auto simp: header_line_def Let_def canon_of_line_def keys_dict_set
      split: option.splits dest: identify_in_keys)

lemma keys_header_scan:
  "map fst (out st) = canonical_keys \<Longrightarrow> map fst (out (header_scan mx i ls st)) = canonical_keys"
  by (induction ls arbitrary: i st) (simp_all add: Let_def keys_header_line)

lemma keys_init_state: "map fst (out init_state) = canonical_keys"
  by (simp add: init_state_def KEY_ALIASES_def canonical_keys_def)

lemma stoich_of_record:
  assumes "\<not> truthy (dict_get (out (header_scan mx 0 ls init_state)) ''STOICH'')"
  shows "dict_get (canon (parse_core mx ls t)) ''STOICH'' = stoich_spec t"
proof -
  define d where "d = out (header_scan mx 0 ls init_state)"
  have has: "dict_has d ''STOICH''"
    using keys_header_scan [OF keys_init_state, of mx 0 ls]
    by (simp add: d_def dict_has_def canonical_keys_def)
  have unset: "\<not> truthy (dict_get d ''STOICH'')"
    using assms by (simp add: d_def)
  have long: "dict_get d ''STOICHIOMETRY'' = None"
  proof -
    have "''STOICHIOMETRY'' \<notin> set (map fst d)"
      using keys_header_scan [OF keys_init_state, of mx 0 ls]
      by (simp add: d_def canonical_keys_def)
    then have "map_of d ''STOICHIOMETRY'' = None"
      by (simp add: map_of_eq_None_iff)
    then show ?thesis by (simp add: dict_get_def)
  qed
  have "dict_get (post_stoich d t) ''STOICH'' =
      (if stoich_spec t \<noteq> None then stoich_spec t else dict_get d ''STOICH'')"
  proof (cases "stoich_spec t = None")
    case True
    then have "\<not> truthy (stoich_spec t)" by (simp add: truthy_def)
    with True show ?thesis
      by (simp add: post_stoich_def Let_def find_stoich_is_spec)
  next
    case False
    then have "truthy (stoich_spec t)" by (simp add: stoich_spec_truthy)
    with False has unset long show ?thesis
      by (simp add: post_stoich_def Let_def find_stoich_is_spec dict_get_dict_set
          truthy_def [of None])
  qed
  then have "or_none (dict_get (post_score (post_stoich d t)) ''STOICH'') = stoich_spec t"
    using unset stoich_spec_truthy [of t]
    by (auto simp: dict_get_post_score or_none_def truthy_def split: option.splits)
  then show ?thesis
    by (simp add: canon_parse_core d_def canonical_keys_def)
qed

lemma truthy_out_header_line:
  "py_strip line \<noteq> [] \<Longrightarrow> \<not> looks_like_coordinate_line line \<Longrightarrow>
   truthy (dict_get (out (header_line i line st)) k) \<longleftrightarrow>
     truthy (dict_get (out st) k) \<or> kept_under k line"
proof (cases "kept_under k line")
  case True
  then have "value_of_line line \<noteq> []" by (simp add: kept_under_def)
  with True show ?thesis
    by (simp add: out_header_line_kept dict_get_dict_set truthy_def)
next
  case False
  assume "py_strip line \<noteq> []" and "\<not> looks_like_coordinate_line line"
  with False show ?thesis by (simp add: out_header_line_other_key)
qed

lemma truthy_out_header_scan:
  "truthy (dict_get (out (header_scan mx i ls st)) k) \<longleftrightarrow>
     truthy (dict_get (out st) k) \<or> list_ex (\<lambda>(j, l). kept_under k l) (scanned_lines mx i ls)"
  by (induction ls arbitrary: i st) (auto simp: Let_def truthy_out_header_line)

lemma unset_init_state: "\<not> truthy (dict_get (out init_state) k)"
proof -
  have "map_of (map (\<lambda>x. (x, None :: string option)) xs) k = None
      \<or> map_of (map (\<lambda>x. (x, None :: string option)) xs) k = Some None" for xs
    by (induction xs) auto
  from this [of "map fst KEY_ALIASES"] show ?thesis
    by (auto simp: init_state_def dict_get_def truthy_def)
qed

lemma first_seen_distinct: "distinct (first_seen ks) \<and> set (first_seen ks) = set ks"
  by (simp add: first_seen_def)

text \<open>
  Claim C6, as the code has it: when no header line that the scan reads stores a
  stoichiometry, the pass after the scan sets the field \<^verbatim>\<open>STOICH\<close> to the stoichiometry of the whole
  text of the file: the distinct letter groups of its tokens in the order they are first
  seen, each with the digits of its first token, and nothing when the text has no token.
  For the file of the two lines \<^verbatim>\<open>A: 2\<close> and \<^verbatim>\<open>B: 3\<close> this is \<^verbatim>\<open>A2B3\<close>; every
  other line of a file adds its tokens.
\<close>

theorem stoich_synthesised_from_tokens:
  assumes "fs p = Some (File ls t)" and "p \<noteq> []"
      and "list_all (\<lambda>(j, l). \<not> kept_under ''STOICH'' l) (scanned_lines mx 0 ls)"
  shows "map_option (\<lambda>m. dict_get (canon m) ''STOICH'') (parse_ts_metadata fs p mx) =
         Some (stoich_spec t)"
proof -
  have "\<not> truthy (dict_get (out (header_scan mx 0 ls init_state)) ''STOICH'')"
    using assms(3) by (auto simp: truthy_out_header_scan unset_init_state list_ex_iff list_all_iff)
  then show ?thesis
    using assms(1) assms(2) stoich_of_record [of mx ls t]
    by (simp add: parse_ts_metadata_def path_exists_def iter_lines_def collect_all_text_def)
qed

theorem stoich_synthesised_from_tokens_witness:
  "[''/casp/T1.txt'' \<mapsto> plain_file stoich_file] ''/casp/T1.txt'' =
     Some (File (py_lines stoich_file) stoich_file)
   \<and> ''/casp/T1.txt'' \<noteq> []
   \<and> list_all (\<lambda>(j, l). \<not> kept_under ''STOICH'' l)
        (scanned_lines MAX_HEADER_LINES 0 (py_lines stoich_file))
   \<and> scanned_lines MAX_HEADER_LINES 0 (py_lines stoich_file) = [(0, ''A: 2''), (1, ''B: 3'')]
   \<and> stoich_tokens stoich_file = [(''A'', ''2''), (''B'', ''3'')]
   \<and> map_option (\<lambda>m. dict_get (canon m) ''STOICH'')
        (parse_ts_metadata [''/casp/T1.txt'' \<mapsto> plain_file stoich_file] ''/casp/T1.txt''
           MAX_HEADER_LINES) = Some (Some ''A2B3'')
   \<and> list_all (\<lambda>(j, l). \<not> kept_under ''STOICH'' l)
        (scanned_lines MAX_HEADER_LINES 0 (py_lines repeated_stoich_file))
   \<and> stoich_tokens repeated_stoich_file = [(''A'', ''2''), (''B'', ''3''), (''A'', ''5'')]
   \<and> map_option (\<lambda>m. dict_get (canon m) ''STOICH'')
        (parse_ts_metadata [''/casp/T1.txt'' \<mapsto> plain_file repeated_stoich_file]
           ''/casp/T1.txt'' MAX_HEADER_LINES) = Some (Some ''A2B3'')"
proof -
  have stored: "[''/casp/T1.txt'' \<mapsto> plain_file f] ''/casp/T1.txt'' =
      Some (File (py_lines f) f)" for f
    by (simp add: plain_file_def)
  have path_ok: "''/casp/T1.txt'' \<noteq> []"
    by simp
  have unset: "list_all (\<lambda>(j, l). \<not> kept_under ''STOICH'' l)
      (scanned_lines MAX_HEADER_LINES 0 (py_lines stoich_file))"
    by code_simp
  have unset2: "list_all (\<lambda>(j, l). \<not> kept_under ''STOICH'' l)
      (scanned_lines MAX_HEADER_LINES 0 (py_lines repeated_stoich_file))"
    by code_simp
  have ls: "scanned_lines MAX_HEADER_LINES 0 (py_lines stoich_file) =
      [(0, ''A: 2''), (1, ''B: 3'')]"
    by code_simp
  have tokens: "stoich_tokens stoich_file = [(''A'', ''2''), (''B'', ''3'')]"
    by code_simp
  have tokens2: "stoich_tokens repeated_stoich_file = [(''A'', ''2''), (''B'', ''3''), (''A'', ''5'')]"
    by code_simp
  have spec: "stoich_spec stoich_file = Some ''A2B3''"
    by code_simp
  have spec2: "stoich_spec repeated_stoich_file = Some ''A2B3''"
    by code_simp
  from stoich_synthesised_from_tokens [where fs = "[''/casp/T1.txt'' \<mapsto> plain_file stoich_file]"
      and p = "''/casp/T1.txt''" and ls = "py_lines stoich_file" and t = stoich_file
      and mx = MAX_HEADER_LINES, OF stored path_ok unset]
    stoich_synthesised_from_tokens [where
      fs = "[''/casp/T1.txt'' \<mapsto> plain_file repeated_stoich_file]"
      and p = "''/casp/T1.txt''" and ls = "py_lines repeated_stoich_file"
      and t = repeated_stoich_file and mx = MAX_HEADER_LINES, OF stored path_ok unset2]
  show ?thesis
    using stored [of stoich_file] unset unset2 ls tokens tokens2 by (simp add: spec spec2)
qed

text \<open>
  Claim C6 as it is written fails: a file that holds the two lines and no line recognised
  as a stoichiometry header need not give \<^verbatim>\<open>A2B3\<close>. A remark before them adds its
  token.
\<close>

theorem remark_token_joins_stoich:
  "is_remark_line ''REMARK 1''
   \<and> canon_of_line ''A: 2'' = None
   \<and> canon_of_line ''B: 3'' = None
   \<and> map_option (\<lambda>m. dict_get (canon m) ''STOICH'')
        (parse_ts_metadata [''/casp/T1.txt'' \<mapsto> plain_file remark_stoich_file] ''/casp/T1.txt''
           MAX_HEADER_LINES) = Some (Some ''REMARK1A2B3'')"
  by code_simp

section \<open>Rendering and the cache\<close>

lemma print_fields_lines:
  "print_fields m ks (ls, b) =
     (ls @ concat (map (\<lambda>k. field_line m k (friendly_label k)) ks),
      b \<or> concat (map (\<lambda>k. field_line m k (friendly_label k)) ks) \<noteq> [])"
  by (induction ks arbitrary: ls b) (auto simp: field_line_def split: option.splits)

lemma friendly_labels:
  "friendly_label ''STOICH'' = ''Stoichiometry''"
  "friendly_label ''AUTHOR'' = ''Author''"
  "friendly_label ''METHOD'' = ''Method''"
  "friendly_label ''SCORE'' = ''Score(s)''"
  "friendly_label ''MODEL'' = ''Model''"
  by (simp_all add: friendly_label_def FRIENDLY_def)

lemma keys_parse_core: "map fst (canon (parse_core mx ls t)) = canonical_keys"
  by (simp add: parse_core_def Let_def KEY_ALIASES_def canonical_keys_def)

lemma map_of_dict_del: "map_of (dict_del d k) k = None"
  by (induction d) (auto simp: dict_del_def)

text \<open>
  Claim C7: for every record the listing printed is the listing of the specification.
  After the title line come the fields \<^verbatim>\<open>STOICH\<close>, \<^verbatim>\<open>AUTHOR\<close>, \<^verbatim>\<open>METHOD\<close>,
  \<^verbatim>\<open>SCORE\<close>, \<^verbatim>\<open>MODEL\<close> in this order, under the labels Stoichiometry, Author,
  Method, Score(s), Model, the empty ones left out; when all five are empty the one
  notice that no recognized field was found; when the record is absent the notice that
  no metadata is available.
\<close>

theorem render_is_fixed_listing: "pretty_print_trimmed key m_opt = render_spec key m_opt"
proof (cases m_opt)
  case None
  then show ?thesis by (simp add: pretty_print_trimmed_def render_spec_def)
next
  case (Some m)
  then show ?thesis
    by (simp add: pretty_print_trimmed_def render_spec_def print_fields_lines order_def
        friendly_labels Let_def)
qed

text \<open>
  Claim C8: for every key and every TS path that does not exist, \<open>attach_ts\<close> reports
  that the file was not found and returns the cache as it was: nothing is stored, and
  no entry is overwritten.
\<close>

theorem attach_missing_file_keeps_cache:
  "\<not> path_exists (env_fs e) (env_expanduser e ts_path) \<Longrightarrow>
   attach_ts e c ts_path obj_identifier =
     (c, [Line (''attach_ts: TS file not found: '' @ env_expanduser e ts_path)])"
  by (simp add: attach_ts_def Let_def)

theorem attach_missing_file_keeps_cache_witness:
  "\<not> path_exists (env_fs example_host) (env_expanduser example_host ''/work/M2_TS.txt'')
   \<and> attach_ts example_host [(''M1'', Some bob_record)] ''/work/M2_TS.txt'' ''M1'' =
       ([(''M1'', Some bob_record)], [Line ''attach_ts: TS file not found: /work/M2_TS.txt''])"
proof -
  have missing:
    "\<not> path_exists (env_fs example_host) (env_expanduser example_host ''/work/M2_TS.txt'')"
    by code_simp
  have "env_expanduser example_host ''/work/M2_TS.txt'' = ''/work/M2_TS.txt''"
    by (simp add: example_host_def)
  with missing attach_missing_file_keeps_cache [OF missing] show ?thesis by simp
qed

text \<open>
  Claim C10, as the code has it: for every path that exists (the empty path never does)
  the parser returns a record with the eight canonical keys, whatever the file yields:
  no line, some lines before a read error, or a directory. Given such a path,
  \<open>attach_ts\<close> stores that record under the object its identifier resolves to and
  prints it; when the identifier resolves to no object, the cache stays as it was and
  one line about the objects is printed. The branch that reports that parsing returned
  no metadata is never taken.
\<close>

theorem existing_file_gives_record:
  assumes "path_exists (env_fs e) (env_expanduser e ts_path)"
      and "env_expanduser e ts_path \<noteq> []"
  shows "(\<exists>m. parse_ts_metadata (env_fs e) (env_expanduser e ts_path) mx = Some m
            \<and> map fst (canon m) = canonical_keys)
       \<and> (\<exists>m. parse_ts_metadata (env_fs e) (env_expanduser e ts_path) MAX_HEADER_LINES = Some m
            \<and> (case attach_target (env_names e) obj of
                  Some n \<Rightarrow>
                    attach_ts e c ts_path obj =
                      (cache_set c n (Some m),
                       Line (''attach_ts: attached metadata from '' @
                             basename (env_expanduser e ts_path) @ '' to object '' @ n) #
                       pretty_print_trimmed n (Some m))
                | None \<Rightarrow>
                    fst (attach_ts e c ts_path obj) = c
                    \<and> (\<exists>t ns. snd (attach_ts e c ts_path obj) = [Line_names t ns])))"
proof -
  define m where
    "m = parse_core MAX_HEADER_LINES (iter_lines (env_fs e) (env_expanduser e ts_path))
           (collect_all_text (env_fs e) (env_expanduser e ts_path))"
  have parsed: "parse_ts_metadata (env_fs e) (env_expanduser e ts_path) n =
      Some (parse_core n (iter_lines (env_fs e) (env_expanduser e ts_path))
              (collect_all_text (env_fs e) (env_expanduser e ts_path)))" for n
    using assms by (simp add: parse_ts_metadata_def)
  have first: "\<exists>m. parse_ts_metadata (env_fs e) (env_expanduser e ts_path) mx = Some m
      \<and> map fst (canon m) = canonical_keys"
    by (simp add: parsed keys_parse_core)
  have second: "case attach_target (env_names e) obj of
                  Some n \<Rightarrow>
                    attach_ts e c ts_path obj =
                      (cache_set c n (Some m),
                       Line (''attach_ts: attached metadata from '' @
                             basename (env_expanduser e ts_path) @ '' to object '' @ n) #
                       pretty_print_trimmed n (Some m))
                | None \<Rightarrow>
                    fst (attach_ts e c ts_path obj) = c
                    \<and> (\<exists>t ns. snd (attach_ts e c ts_path obj) = [Line_names t ns])"
    using assms(1) by (auto simp: attach_ts_def Let_def parsed m_def split: option.splits)
  from first second [unfolded m_def] show ?thesis by (simp add: parsed)
qed

theorem existing_file_gives_record_witness:
  "path_exists (env_fs example_host) (env_expanduser example_host ''/work/M1_TS.txt'')
   \<and> env_expanduser example_host ''/work/M1_TS.txt'' \<noteq> []
   \<and> attach_target (env_names example_host) ''M'' = Some ''M1''
   \<and> attach_ts example_host [] ''/work/M1_TS.txt'' ''M'' =
       ([(''M1'', Some bob_record)],
        [Line ''attach_ts: attached metadata from M1_TS.txt to object M1'',
         Line ''=== TS metadata for: M1 ==='', Line ''Author: Bob''])"
proof -
  have ex: "path_exists (env_fs example_host) (env_expanduser example_host ''/work/M1_TS.txt'')"
    by code_simp
  have ne: "env_expanduser example_host ''/work/M1_TS.txt'' \<noteq> []"
    by (simp add: example_host_def)
  have tgt: "attach_target (env_names example_host) ''M'' = Some ''M1''"
    by code_simp
  have parsed: "parse_ts_metadata (env_fs example_host)
      (env_expanduser example_host ''/work/M1_TS.txt'') MAX_HEADER_LINES = Some bob_record"
    by code_simp
  have bn: "basename (env_expanduser example_host ''/work/M1_TS.txt'') = ''M1_TS.txt''"
    by code_simp
  have pp: "pretty_print_trimmed ''M1'' (Some bob_record) =
      [Line ''=== TS metadata for: M1 ==='', Line ''Author: Bob'']"
    by code_simp
  from existing_file_gives_record [OF ex ne, where obj = "''M''" and c = "[]" and mx = 0]
  show ?thesis using ex ne
    by (simp add: tgt parsed bn pp cache_set_def)
qed

text \<open>
  A file that yields nothing and a directory give the record with no field set.
\<close>

lemma unreadable_file_gives_empty_record:
  "parse_ts_metadata [''/casp/T1.txt'' \<mapsto> File [] []] ''/casp/T1.txt'' MAX_HEADER_LINES =
     Some \<lparr>canon = map (\<lambda>k. (k, None)) canonical_keys, REMARKS = [], OTHER = None\<rparr>
   \<and> parse_ts_metadata [''/casp'' \<mapsto> Dir [''T1.txt'']] ''/casp'' MAX_HEADER_LINES =
     Some \<lparr>canon = map (\<lambda>k. (k, None)) canonical_keys, REMARKS = [], OTHER = None\<rparr>"
  by code_simp

text \<open>
  Claim C10 as it is written fails where it says that \<open>attach_ts\<close>, given an existing
  file, always stores a record: the file exists, no open object matches the identifier,
  and nothing is stored.
\<close>

theorem attach_without_object_stores_nothing:
  "path_exists (env_fs example_host) (env_expanduser example_host ''/work/M1_TS.txt'')
   \<and> attach_ts example_host [] ''/work/M1_TS.txt'' ''Model_9'' =
       ([], [Line_names ''attach_ts: object not found (available objects):'' [''M1'']])"
  by code_simp

text \<open>
  Claim C1, as the code has it: when the cache holds a record for the key,
  \<open>show_for_key\<close> and \<open>show_ts_info\<close> print that record and leave the cache as it
  is, whatever the host holds and whether or not a TS path is given: nothing is parsed
  and nothing is searched. When the cache holds \<^verbatim>\<open>None\<close> for the key, the call prints
  and returns what it does for a key that was never stored: a stored absence is no hit.
\<close>

theorem cached_record_is_shown:
  "(map_of c key = Some (Some m) \<longrightarrow>
      show_for_key e c key explicit_ts = (True, c, pretty_print_trimmed key (Some m))
      \<and> (key \<noteq> [] \<longrightarrow>
           show_ts_info e c (Some key) explicit_ts = (c, pretty_print_trimmed key (Some m))))
   \<and> (map_of c key = Some None \<longrightarrow>
        fst (show_for_key e c key explicit_ts) =
          fst (show_for_key e (dict_del c key) key explicit_ts)
        \<and> snd (snd (show_for_key e c key explicit_ts)) =
            snd (snd (show_for_key e (dict_del c key) key explicit_ts)))"
proof -
  have hit: "show_for_key e c key explicit_ts = (True, c, pretty_print_trimmed key (Some m))"
    if "map_of c key = Some (Some m)"
    using that by (simp add: show_for_key_def cache_get_def)
  have miss: "fst (show_for_key e c key explicit_ts) =
      fst (show_for_key e (dict_del c key) key explicit_ts)
      \<and> snd (snd (show_for_key e c key explicit_ts)) =
          snd (snd (show_for_key e (dict_del c key) key explicit_ts))"
    if "map_of c key = Some None"
    using that
    by (simp add: show_for_key_def cache_get_def map_of_dict_del Let_def
        split: option.splits prod.splits)
  show ?thesis
    using hit miss by (simp add: show_ts_info_def truthy_def)
qed

theorem cached_record_is_shown_witness:
  "map_of [(''M1'', Some bob_record)] ''M1'' = Some (Some bob_record)
   \<and> ''M1'' \<noteq> []
   \<and> show_ts_info (example_host\<lparr>env_fs := Map.empty\<rparr>) [(''M1'', Some bob_record)]
        (Some ''M1'') None =
       ([(''M1'', Some bob_record)],
        [Line ''=== TS metadata for: M1 ==='', Line ''Author: Bob''])
   \<and> map_of [(''M1'', None :: meta option)] ''M1'' = Some None
   \<and> fst (show_for_key example_host [(''M1'', None)] ''M1'' None) = True
   \<and> fst (show_for_key example_host [] ''M1'' None) = True"
proof -
  have stored: "map_of [(''M1'', Some bob_record)] ''M1'' = Some (Some bob_record)"
    by simp
  have absent: "map_of [(''M1'', None :: meta option)] ''M1'' = Some None"
    by simp
  have pp: "pretty_print_trimmed ''M1'' (Some bob_record) =
      [Line ''=== TS metadata for: M1 ==='', Line ''Author: Bob'']"
    by code_simp
  have del: "dict_del [(''M1'', None :: meta option)] ''M1'' = []"
    by (simp add: dict_del_def)
  have found: "fst (show_for_key example_host [] ''M1'' None) = True"
    by code_simp
  from cached_record_is_shown [of "[(''M1'', Some bob_record)]" "''M1''" bob_record
      "example_host\<lparr>env_fs := Map.empty\<rparr>" None]
    cached_record_is_shown [of "[(''M1'', None)]" "''M1''" bob_record example_host None]
  show ?thesis
    using stored absent found by (simp add: pp del)
qed

text \<open>
  Claim C1 as it is written fails. \<open>load_model_with_ts\<close> on the open object
  \<^verbatim>\<open>M1\<close> finds no TS file and stores \<^verbatim>\<open>None\<close> for it. \<open>show_ts_info\<close> for
  \<^verbatim>\<open>M1\<close> then does not print the stored absence: it searches the directories, finds
  \<^verbatim>\<open>M1_TS.txt\<close>, parses it and stores the record.
\<close>

theorem cached_absence_is_searched_again:
  "load_model_with_ts example_host [] ''M1'' None =
     (\<lparr>lr_object = Some ''M1'', lr_ts = None, lr_meta = None\<rparr>,
      [(''M1'', None)],
      [Line ''load_model_with_ts: object: M1  (pdb loaded from: already-open)'',
       Line ''TS file: not found (searched common candidates).'',
       Line ''=== TS metadata for: M1 ==='',
       Line ''  (no TS metadata available)''],
      None)
   \<and> show_ts_info example_host [(''M1'', None)] (Some ''M1'') None =
       ([(''M1'', Some bob_record)],
        [Line (''show_ts_info: found TS '' @ [QUOTE] @ ''M1_TS.txt'' @ [QUOTE] @
               '' -> parsed & cached under key: M1''),
         Line ''=== TS metadata for: M1 ==='',
         Line ''Author: Bob''])
   \<and> pretty_print_trimmed ''M1'' None =
       [Line ''=== TS metadata for: M1 ==='', Line ''  (no TS metadata available)'']"
  by code_simp

end
